theory Spec2Isabelle
  imports Main "HOL-Library.Sublist" "HOL-Library.Multiset"
begin

section \<open>Time and calendar\<close>

text \<open>
  An aware \<^verbatim>\<open>datetime\<close> is modelled by the absolute instant it denotes, in microseconds
  (comparison of aware datetimes, in Python and in the database, is comparison of instants).
  A calendar date is modelled by its proleptic Gregorian ordinal (\<^verbatim>\<open>date.toordinal()\<close>),
  so that \<^verbatim>\<open>from_ - timedelta(days=i)\<close> is subtraction of \<open>i\<close>. The range limits of the
  library (years 1 to 9999) are not modelled: the ordinals are unbounded integers.
\<close>

type_synonym instant = int
type_synonym date = int

definition timedelta_days :: "int \<Rightarrow> int" where
  "timedelta_days n = n * 86400000000"

definition timedelta_hours :: "int \<Rightarrow> int" where
  "timedelta_hours n = n * 3600000000"

definition timedelta_minutes :: "int \<Rightarrow> int" where
  "timedelta_minutes n = n * 60000000"

text \<open>The year, month and day of an ordinal, computed as \<^verbatim>\<open>datetime._ord2ymd\<close> does.\<close>

definition DAYS_IN_MONTH :: "int list" where
  "DAYS_IN_MONTH = [-1, 31, 28, 31, 30, 31, 30, 31, 31, 30, 31, 30, 31]"

definition DAYS_BEFORE_MONTH :: "int list" where
  "DAYS_BEFORE_MONTH = [-1, 0, 31, 59, 90, 120, 151, 181, 212, 243, 273, 304, 334]"

definition ord2ymd :: "date \<Rightarrow> int \<times> int \<times> int" where
  "ord2ymd ordinal =
     (let n0 = ordinal - 1;
          n400 = n0 div 146097; na = n0 mod 146097;
          n100 = na div 36524; nb = na mod 36524;
          n4 = nb div 1461; nc = nb mod 1461;
          n1 = nc div 365; n = nc mod 365;
          year = n400 * 400 + 1 + n100 * 100 + n4 * 4 + n1
      in if n1 = 4 \<or> n100 = 4 then (year - 1, 12, 31)
         else
           (let leapyear = (n1 = 3 \<and> (n4 \<noteq> 24 \<or> n100 = 3));
                month = (n + 50) div 32;
                preceding = DAYS_BEFORE_MONTH ! nat month
                            + (if month > 2 \<and> leapyear then 1 else 0)
            in if preceding > n
               then (let month' = month - 1;
                         preceding' = preceding - (DAYS_IN_MONTH ! nat month'
                                        + (if month' = 2 \<and> leapyear then 1 else 0))
                     in (year, month', n - preceding' + 1))
               else (year, month, n - preceding + 1)))"

text \<open>
  The ordinal of a year, month and day, computed as \<^verbatim>\<open>datetime._ymd2ord\<close> does. It is the
  way from a date to its ordinal, as \<^verbatim>\<open>ord2ymd\<close> is the way back:
  \<^verbatim>\<open>from_ - datetime.timedelta(days=i)\<close> takes the first, subtracts and takes the second.
\<close>

definition is_leap :: "int \<Rightarrow> bool" where
  "is_leap year = (year mod 4 = 0 \<and> (year mod 100 \<noteq> 0 \<or> year mod 400 = 0))"

definition days_before_year :: "int \<Rightarrow> int" where
  "days_before_year year = (let y = year - 1 in y * 365 + y div 4 - y div 100 + y div 400)"

definition days_in_month :: "int \<Rightarrow> int \<Rightarrow> int" where
  "days_in_month year month =
     (if month = 2 \<and> is_leap year then 29 else DAYS_IN_MONTH ! nat month)"

definition days_before_month :: "int \<Rightarrow> int \<Rightarrow> int" where
  "days_before_month year month =
     DAYS_BEFORE_MONTH ! nat month + (if month > 2 \<and> is_leap year then 1 else 0)"

definition ymd2ord :: "int \<Rightarrow> int \<Rightarrow> int \<Rightarrow> date" where
  "ymd2ord year month day = days_before_year year + days_before_month year month + day"

definition digit :: "nat \<Rightarrow> char" where
  "digit n = ''0123456789'' ! (n mod 10)"

definition fmt2 :: "nat \<Rightarrow> string" where
  "fmt2 n = [digit (n div 10), digit n]"

definition fmt4 :: "nat \<Rightarrow> string" where
  "fmt4 n = [digit (n div 1000), digit (n div 100), digit (n div 10), digit n]"

text \<open>\<^verbatim>\<open>datetime_from.strftime('%Y/%m/%d/')\<close>, for the midnight of the date.\<close>

definition strftime_ymd :: "date \<Rightarrow> string" where
  "strftime_ymd d =
     (case ord2ymd d of (y, m, dd) \<Rightarrow>
        fmt4 (nat y) @ ''/'' @ fmt2 (nat m) @ ''/'' @ fmt2 (nat dd) @ ''/'')"

section \<open>The store\<close>

text \<open>
  The tables the queries read, as lists of rows. The columns are those the queries use;
  the two \<^verbatim>\<open>is_from_gtfs\<close> flags are nullable booleans.
\<close>

record siri_snapshot =
  ss_id :: nat
  snapshot_id :: string
  etl_status :: string
  etl_start_time :: instant
  etl_end_time :: "instant option"
  ss_error :: "string option"
  num_successful_parse_vehicle_locations :: "int option"
  num_failed_parse_vehicle_locations :: "int option"

record vehicle_location =
  vl_id :: nat
  vl_siri_snapshot_id :: nat

record route =
  route_id :: nat
  Route_is_from_gtfs :: "bool option"

record ride =
  ride_id :: nat
  ride_route_id :: nat
  scheduled_start_time :: instant
  Ride_is_from_gtfs :: "bool option"

record route_stop =
  rs_id :: nat
  rs_route_id :: nat
  rs_stop_id :: nat

record stop =
  stop_id :: nat

record store =
  siri_snapshots :: "siri_snapshot list"
  vehicle_locations :: "vehicle_location list"
  rides :: "ride list"
  routes :: "route list"
  route_stops :: "route_stop list"
  stops :: "stop list"

subsection \<open>SQL predicates\<close>

text \<open>
  A comparison with a NULL operand is NULL, and a \<^verbatim>\<open>WHERE\<close> clause keeps a row only
  when its condition is true. \<^verbatim>\<open>column == True\<close> and \<^verbatim>\<open>column != True\<close> are rendered as
  \<^verbatim>\<open>column = true\<close> and \<^verbatim>\<open>column != true\<close>.
\<close>

definition sql_eq :: "bool option \<Rightarrow> bool \<Rightarrow> bool option" where
  "sql_eq c v = (case c of None \<Rightarrow> None | Some b \<Rightarrow> Some (b = v))"

definition sql_ne :: "bool option \<Rightarrow> bool \<Rightarrow> bool option" where
  "sql_ne c v = (case c of None \<Rightarrow> None | Some b \<Rightarrow> Some (b \<noteq> v))"

definition sql_where :: "bool option \<Rightarrow> bool" where
  "sql_where c = (c = Some True)"

text \<open>
  \<^verbatim>\<open>LIKE\<close>: \<^verbatim>\<open>%\<close> matches any sequence of characters, \<^verbatim>\<open>_\<close> any single character, and
  any other character itself.
\<close>

fun sql_like :: "string \<Rightarrow> string \<Rightarrow> bool" where
  "sql_like [] s = (s = [])"
| "sql_like (p # ps) [] = (p = CHR ''%'' \<and> sql_like ps [])"
| "sql_like (p # ps) (c # cs) =
     (if p = CHR ''%'' then sql_like ps (c # cs) \<or> sql_like (p # ps) cs
      else if p = CHR ''_'' then sql_like ps cs
      else p = c \<and> sql_like ps cs)"

text \<open>\<^verbatim>\<open>t <= datetime_to, t >= datetime_from\<close>\<close>

definition in_window :: "instant \<Rightarrow> instant \<Rightarrow> instant \<Rightarrow> bool" where
  "in_window datetime_from datetime_to t = (t \<le> datetime_to \<and> t \<ge> datetime_from)"

subsection \<open>The environment\<close>

text \<open>
  What the code reads from outside the store: the clock, the time zone database and the
  identifier parser of the \<^verbatim>\<open>common\<close> module (\<open>None\<close> when it raises).
\<close>

record env =
  local_today :: date
  utc_now :: instant
  israel_midnight :: "date \<Rightarrow> instant"
  parse_siri_snapshot_id :: "string \<Rightarrow> instant option"

section \<open>The day-window aggregator\<close>

record day_stats =
  date :: date
  siri_snapshot_by_etl_started :: nat
  siri_snapshot_by_snapshot_id :: nat
  vehicle_location_by_snapshot_id :: nat
  ride_is_from_gtfs :: nat
  ride_not_from_gtfs :: nat
  route_by_rides_is_from_gtfs :: nat
  route_by_rides_not_from_gtfs :: nat
  route_stop_by_route_is_from_gtfs :: nat
  route_stop_by_route_not_from_gtfs :: nat
  stop_by_route_stop_is_from_gtfs :: nat
  stop_by_route_stop_not_from_gtfs :: nat

definition count_snapshots_by_etl_started :: "store \<Rightarrow> instant \<Rightarrow> instant \<Rightarrow> nat" where
  "count_snapshots_by_etl_started db datetime_from datetime_to =
     length (filter (\<lambda>s. in_window datetime_from datetime_to (etl_start_time s))
               (siri_snapshots db))"

definition count_snapshots_by_snapshot_id :: "store \<Rightarrow> string \<Rightarrow> nat" where
  "count_snapshots_by_snapshot_id db pattern =
     length (filter (\<lambda>s. sql_like pattern (snapshot_id s)) (siri_snapshots db))"

definition count_vehicle_locations_by_snapshot_id :: "store \<Rightarrow> string \<Rightarrow> nat" where
  "count_vehicle_locations_by_snapshot_id db pattern =
     length (filter (\<lambda>v. list_ex (\<lambda>s. ss_id s = vl_siri_snapshot_id v
                                      \<and> sql_like pattern (snapshot_id s))
                            (siri_snapshots db))
               (vehicle_locations db))"

definition count_rides :: "store \<Rightarrow> instant \<Rightarrow> instant \<Rightarrow> (bool option \<Rightarrow> bool option) \<Rightarrow> nat" where
  "count_rides db datetime_from datetime_to flag =
     length (filter (\<lambda>r. in_window datetime_from datetime_to (scheduled_start_time r)
                          \<and> sql_where (flag (Ride_is_from_gtfs r)))
               (rides db))"

definition count_routes_by_rides :: "store \<Rightarrow> instant \<Rightarrow> instant \<Rightarrow> (bool option \<Rightarrow> bool option) \<Rightarrow> nat" where
  "count_routes_by_rides db datetime_from datetime_to flag =
     length (filter (\<lambda>rt. list_ex (\<lambda>r. ride_route_id r = route_id rt
                                       \<and> in_window datetime_from datetime_to (scheduled_start_time r))
                             (rides db)
                           \<and> sql_where (flag (Route_is_from_gtfs rt)))
               (routes db))"

text \<open>The rows of \<^verbatim>\<open>route JOIN ride\<close> that the filter keeps.\<close>

definition route_ride_rows :: "store \<Rightarrow> instant \<Rightarrow> instant \<Rightarrow> (bool option \<Rightarrow> bool option) \<Rightarrow> (route \<times> ride) list" where
  "route_ride_rows db datetime_from datetime_to flag =
     [(rt, r). rt \<leftarrow> routes db, r \<leftarrow> rides db,
               ride_route_id r = route_id rt,
               in_window datetime_from datetime_to (scheduled_start_time r),
               sql_where (flag (Route_is_from_gtfs rt))]"

definition count_route_stops_by_route :: "store \<Rightarrow> instant \<Rightarrow> instant \<Rightarrow> (bool option \<Rightarrow> bool option) \<Rightarrow> nat" where
  "count_route_stops_by_route db datetime_from datetime_to flag =
     length [(rs, j). rs \<leftarrow> route_stops db,
                      j \<leftarrow> route_ride_rows db datetime_from datetime_to flag,
                      rs_route_id rs = route_id (fst j)]"

definition count_stops_by_route_stop :: "store \<Rightarrow> instant \<Rightarrow> instant \<Rightarrow> (bool option \<Rightarrow> bool option) \<Rightarrow> nat" where
  "count_stops_by_route_stop db datetime_from datetime_to flag =
     length [(st, rs, j). st \<leftarrow> stops db, rs \<leftarrow> route_stops db,
                          rs_stop_id rs = stop_id st,
                          j \<leftarrow> route_ride_rows db datetime_from datetime_to flag,
                          rs_route_id rs = route_id (fst j)]"

text \<open>The record that one iteration of the loop of \<^verbatim>\<open>last_day_stats_iterator\<close> yields.\<close>

definition day_stats_of :: "env \<Rightarrow> store \<Rightarrow> date \<Rightarrow> day_stats" where
  "day_stats_of env db d =
     (let datetime_from = israel_midnight env d;
          datetime_to = datetime_from + timedelta_days 1;
          pattern = strftime_ymd d @ ''%''
      in \<lparr> date = d,
           siri_snapshot_by_etl_started = count_snapshots_by_etl_started db datetime_from datetime_to,
           siri_snapshot_by_snapshot_id = count_snapshots_by_snapshot_id db pattern,
           vehicle_location_by_snapshot_id = count_vehicle_locations_by_snapshot_id db pattern,
           ride_is_from_gtfs = count_rides db datetime_from datetime_to (\<lambda>c. sql_eq c True),
           ride_not_from_gtfs = count_rides db datetime_from datetime_to (\<lambda>c. sql_ne c True),
           route_by_rides_is_from_gtfs =
             count_routes_by_rides db datetime_from datetime_to (\<lambda>c. sql_eq c True),
           route_by_rides_not_from_gtfs =
             count_routes_by_rides db datetime_from datetime_to (\<lambda>c. sql_ne c True),
           route_stop_by_route_is_from_gtfs =
             count_route_stops_by_route db datetime_from datetime_to (\<lambda>c. sql_eq c True),
           route_stop_by_route_not_from_gtfs =
             count_route_stops_by_route db datetime_from datetime_to (\<lambda>c. sql_ne c True),
           stop_by_route_stop_is_from_gtfs =
             count_stops_by_route_stop db datetime_from datetime_to (\<lambda>c. sql_eq c True),
           stop_by_route_stop_not_from_gtfs =
             count_stops_by_route_stop db datetime_from datetime_to (\<lambda>c. sql_ne c True) \<rparr>)"

section \<open>Queries and generators\<close>

text \<open>
  The statements sent to the store, so that a claim about which queries are issued can be
  stated. A generator is modelled by the queries it issues when it is started and, for
  each item it yields, the queries issued to produce that item.
\<close>

datatype count_key =
  SiriSnapshotByEtlStarted | SiriSnapshotBySnapshotId | VehicleLocationBySnapshotId
| RideIsFromGtfs | RideNotFromGtfs
| RouteByRidesIsFromGtfs | RouteByRidesNotFromGtfs
| RouteStopByRouteIsFromGtfs | RouteStopByRouteNotFromGtfs
| StopByRouteStopIsFromGtfs | StopByRouteStopNotFromGtfs

datatype query =
  CountSiriSnapshots
| SelectLatestSiriSnapshots int
| LoadVehicleLocations nat
| CountOfDay date count_key

record 'a generator =
  on_start :: "query list"
  items :: "(query list \<times> 'a) list"

definition day_queries :: "date \<Rightarrow> query list" where
  "day_queries d = map (CountOfDay d)
     [SiriSnapshotByEtlStarted, SiriSnapshotBySnapshotId, VehicleLocationBySnapshotId,
      RideIsFromGtfs, RideNotFromGtfs, RouteByRidesIsFromGtfs, RouteByRidesNotFromGtfs,
      RouteStopByRouteIsFromGtfs, RouteStopByRouteNotFromGtfs,
      StopByRouteStopIsFromGtfs, StopByRouteStopNotFromGtfs]"

text \<open>
  \<^verbatim>\<open>last_day_stats_iterator\<close>: \<^verbatim>\<open>from_\<close> defaults to the current local date, and
  \<^verbatim>\<open>range(limit)\<close> is empty for a limit that is not positive. Only the year, month and
  day of \<^verbatim>\<open>from_\<close> are read, so its time of day is left out of the model. The statement
  \<^verbatim>\<open>session.query(RouteStop).join(Route)\<close> at the head of the loop builds a query and
  does not execute it.
\<close>

definition last_day_stats_iterator :: "env \<Rightarrow> store \<Rightarrow> int \<Rightarrow> date option \<Rightarrow> day_stats generator" where
  "last_day_stats_iterator env db limit from_arg =
     (let start = (case from_arg of None \<Rightarrow> local_today env | Some d \<Rightarrow> d)
      in \<lparr> on_start = [],
           items = map (\<lambda>i. (day_queries (start - int i), day_stats_of env db (start - int i)))
                     [0..<nat limit] \<rparr>)"

section \<open>The snapshot inventory\<close>

record snapshot_summary =
  sum_snapshot_id :: string
  sum_etl_status :: string
  sum_etl_start_time :: instant
  sum_etl_end_time :: "instant option"
  sum_error :: "string option"
  sum_num_successful_parse_vehicle_locations :: "int option"
  sum_num_failed_parse_vehicle_locations :: "int option"
  sum_vehicle_locations :: nat

text \<open>
  \<^verbatim>\<open>query[:limit]\<close>: a limit that is not negative becomes \<^verbatim>\<open>LIMIT\<close>; with a negative one
  all the rows are loaded and sliced as a Python list.
\<close>

definition slice_to :: "int \<Rightarrow> 'a list \<Rightarrow> 'a list" where
  "slice_to limit xs =
     (if limit < 0 then take (nat (int (length xs) + limit)) xs else take (nat limit) xs)"

text \<open>
  \<^verbatim>\<open>order_by(desc(SiriSnapshot.etl_start_time))[:limit]\<close>. The order of rows with equal
  start times is the store's choice; here they keep the order of the table.
\<close>

definition latest_siri_snapshots :: "store \<Rightarrow> int \<Rightarrow> siri_snapshot list" where
  "latest_siri_snapshots db limit =
     slice_to limit (sort_key (\<lambda>s. - etl_start_time s) (siri_snapshots db))"

definition summary_of :: "store \<Rightarrow> siri_snapshot \<Rightarrow> snapshot_summary" where
  "summary_of db s =
     \<lparr> sum_snapshot_id = snapshot_id s,
       sum_etl_status = etl_status s,
       sum_etl_start_time = etl_start_time s,
       sum_etl_end_time = etl_end_time s,
       sum_error = ss_error s,
       sum_num_successful_parse_vehicle_locations = num_successful_parse_vehicle_locations s,
       sum_num_failed_parse_vehicle_locations = num_failed_parse_vehicle_locations s,
       sum_vehicle_locations =
         length (filter (\<lambda>v. vl_siri_snapshot_id v = ss_id s) (vehicle_locations db)) \<rparr>"

definition siri_snapshots_iterator :: "store \<Rightarrow> int \<Rightarrow> snapshot_summary generator" where
  "siri_snapshots_iterator db limit =
     \<lparr> on_start = [SelectLatestSiriSnapshots limit],
       items = map (\<lambda>s. ([LoadVehicleLocations (ss_id s)], summary_of db s))
                 (latest_siri_snapshots db limit) \<rparr>"

section \<open>collect\<close>

datatype error = AssertionError string | MalformedIdentifier

datatype printed_line =
  TotalSiriSnapshots nat
| LastDaysHeader int
| DayStats day_stats
| LatestSiriSnapshotsHeader int
| Snapshot snapshot_summary
| ValidationErrorNoLatestSnapshot
| ValidationErrorOlderThanHour instant
| ValidationSuccess instant

datatype collect_result =
  Verdict bool
| Res nat "snapshot_summary generator" "day_stats generator"

record outcome =
  ret :: "error + collect_result"
  queries :: "query list"
  printed :: "printed_line list"

text \<open>
  The loop over the snapshot summaries: each identifier is parsed, the greatest parsed
  instant is kept, and the summary is printed. A generator item is produced (its queries
  issued) before the body of the loop runs on it.
\<close>

fun scan_snapshots ::
  "env \<Rightarrow> (query list \<times> snapshot_summary) list \<Rightarrow> instant option
     \<Rightarrow> (error + instant option) \<times> query list \<times> printed_line list" where
  "scan_snapshots env [] latest = (Inr latest, [], [])"
| "scan_snapshots env ((qs, siri_snapshot) # rest) latest =
     (case parse_siri_snapshot_id env (sum_snapshot_id siri_snapshot) of
        None \<Rightarrow> (Inl MalformedIdentifier, qs, [])
      | Some snapshot_datetime \<Rightarrow>
          (let latest' = (case latest of
                            None \<Rightarrow> Some snapshot_datetime
                          | Some l \<Rightarrow> if l < snapshot_datetime then Some snapshot_datetime
                                      else Some l)
           in case scan_snapshots env rest latest' of
                (r, qs', out) \<Rightarrow> (r, qs @ qs', Snapshot siri_snapshot # out)))"

definition collect ::
  "env \<Rightarrow> store \<Rightarrow> int \<Rightarrow> int \<Rightarrow> date option \<Rightarrow> bool \<Rightarrow> bool \<Rightarrow> outcome" where
  "collect env db latest_siri_snapshots_limit last_days_limit last_days_from print_results validate =
     (let num_siri_snapshots = length (siri_snapshots db);
          snapshots = siri_snapshots_iterator db latest_siri_snapshots_limit;
          last_days = last_day_stats_iterator env db last_days_limit last_days_from
      in if print_results then
           (let q1 = [CountSiriSnapshots] @ on_start last_days @ concat (map fst (items last_days))
                     @ on_start snapshots;
                out1 = [TotalSiriSnapshots num_siri_snapshots, LastDaysHeader last_days_limit]
                       @ map (\<lambda>it. DayStats (snd it)) (items last_days)
                       @ [LatestSiriSnapshotsHeader latest_siri_snapshots_limit]
            in case scan_snapshots env (items snapshots) None of
                 (Inl e, qs, out) \<Rightarrow> \<lparr> ret = Inl e, queries = q1 @ qs, printed = out1 @ out \<rparr>
               | (Inr latest_snapshot_datetime, qs, out) \<Rightarrow>
                   if validate then
                     (case latest_snapshot_datetime of
                        None \<Rightarrow>
                          \<lparr> ret = Inr (Verdict False), queries = q1 @ qs,
                            printed = out1 @ out @ [ValidationErrorNoLatestSnapshot] \<rparr>
                      | Some l \<Rightarrow>
                          if l < utc_now env - timedelta_hours 1 then
                            \<lparr> ret = Inr (Verdict False), queries = q1 @ qs,
                              printed = out1 @ out @ [ValidationErrorOlderThanHour l] \<rparr>
                          else
                            \<lparr> ret = Inr (Verdict True), queries = q1 @ qs,
                              printed = out1 @ out @ [ValidationSuccess l] \<rparr>)
                   else \<lparr> ret = Inr (Verdict True), queries = q1 @ qs, printed = out1 @ out \<rparr>)
         else if validate then
           \<lparr> ret = Inl (AssertionError ''validate is not supported if print_results is False''),
             queries = [CountSiriSnapshots], printed = [] \<rparr>
         else
           \<lparr> ret = Inr (Res num_siri_snapshots snapshots last_days),
             queries = [CountSiriSnapshots], printed = [] \<rparr>)"

section \<open>Concrete inputs\<close>

text \<open>
  Inputs at which the theorems below are evaluated. The time zone of the examples is a
  fixed offset of two hours east of UTC (Israel's winter time); ordinal 719163 is
  1970-01-01 and ordinal 738888 is 2024-01-03.
\<close>

definition utc_instant :: "date \<Rightarrow> int \<Rightarrow> int \<Rightarrow> instant" where
  "utc_instant d h m = timedelta_days (d - 719163) + timedelta_hours h + timedelta_minutes m"

definition utc_plus_2_midnight :: "date \<Rightarrow> instant" where
  "utc_plus_2_midnight d = utc_instant d (- 2) 0"

definition example_parse :: "string \<Rightarrow> instant option" where
  "example_parse = map_of
     [(''2024/01/03/11/50'', utc_instant 738888 11 50),
      (''2024/01/03/10/00'', utc_instant 738888 10 0),
      (''2024/01/02/09/00'', utc_instant 738887 9 0)]"

definition example_env :: env where
  "example_env =
     \<lparr> local_today = 738888, utc_now = utc_instant 738888 12 0,
       israel_midnight = utc_plus_2_midnight, parse_siri_snapshot_id = example_parse \<rparr>"

definition mk_snapshot :: "nat \<Rightarrow> string \<Rightarrow> instant \<Rightarrow> siri_snapshot" where
  "mk_snapshot i sid t =
     \<lparr> ss_id = i, snapshot_id = sid, etl_status = ''loaded'', etl_start_time = t,
       etl_end_time = None, ss_error = None,
       num_successful_parse_vehicle_locations = None,
       num_failed_parse_vehicle_locations = None \<rparr>"

definition empty_store :: store where
  "empty_store =
     \<lparr> siri_snapshots = [], vehicle_locations = [], rides = [], routes = [],
       route_stops = [], stops = [] \<rparr>"

definition snapshot_0902 :: siri_snapshot where
  "snapshot_0902 = mk_snapshot 1 ''2024/01/02/09/00'' (utc_instant 738887 9 1)"

definition snapshot_1000 :: siri_snapshot where
  "snapshot_1000 = mk_snapshot 2 ''2024/01/03/10/00'' (utc_instant 738888 10 1)"

definition snapshot_1150 :: siri_snapshot where
  "snapshot_1150 = mk_snapshot 3 ''2024/01/03/11/50'' (utc_instant 738888 11 51)"

definition example_store :: store where
  "example_store =
     \<lparr> siri_snapshots = [snapshot_0902, snapshot_1000, snapshot_1150],
       vehicle_locations =
         [\<lparr> vl_id = 1, vl_siri_snapshot_id = 3 \<rparr>, \<lparr> vl_id = 2, vl_siri_snapshot_id = 3 \<rparr>,
          \<lparr> vl_id = 3, vl_siri_snapshot_id = 2 \<rparr>],
       rides =
         [\<lparr> ride_id = 1, ride_route_id = 1, scheduled_start_time = utc_instant 738888 8 0,
            Ride_is_from_gtfs = Some True \<rparr>,
          \<lparr> ride_id = 2, ride_route_id = 2, scheduled_start_time = utc_instant 738888 9 0,
            Ride_is_from_gtfs = Some False \<rparr>],
       routes =
         [\<lparr> route_id = 1, Route_is_from_gtfs = Some True \<rparr>,
          \<lparr> route_id = 2, Route_is_from_gtfs = Some False \<rparr>],
       route_stops =
         [\<lparr> rs_id = 1, rs_route_id = 1, rs_stop_id = 1 \<rparr>,
          \<lparr> rs_id = 2, rs_route_id = 2, rs_stop_id = 1 \<rparr>],
       stops = [\<lparr> stop_id = 1 \<rparr>] \<rparr>"

text \<open>One snapshot only: the stale one, and the fresh one.\<close>

definition stale_store :: store where
  "stale_store = empty_store \<lparr> siri_snapshots := [snapshot_1000] \<rparr>"

definition fresh_store :: store where
  "fresh_store = empty_store \<lparr> siri_snapshots := [snapshot_1150] \<rparr>"

text \<open>
  A snapshot whose identifier parses to a fresh instant but whose ETL start time is the
  oldest of the table.
\<close>

definition backfilled_snapshot :: siri_snapshot where
  "backfilled_snapshot = mk_snapshot 4 ''2024/01/03/11/50'' (utc_instant 738887 0 0)"

definition skewed_store :: store where
  "skewed_store = empty_store \<lparr> siri_snapshots := [backfilled_snapshot, snapshot_1000] \<rparr>"

text \<open>A snapshot that started exactly at the end of the window of 2024-01-03.\<close>

definition boundary_snapshot :: siri_snapshot where
  "boundary_snapshot =
     mk_snapshot 1 ''2024/01/03/23/59'' (utc_plus_2_midnight 738888 + timedelta_days 1)"

definition boundary_store :: store where
  "boundary_store = empty_store \<lparr> siri_snapshots := [boundary_snapshot] \<rparr>"

text \<open>A ride scheduled exactly at the start of the window of 2024-01-03.\<close>

definition midnight_ride :: ride where
  "midnight_ride =
     \<lparr> ride_id = 7, ride_route_id = 1, scheduled_start_time = utc_plus_2_midnight 738888,
       Ride_is_from_gtfs = Some True \<rparr>"

text \<open>A snapshot and a ride of 2024-01-02, in identifier and in time.\<close>

definition snapshot_0800 :: siri_snapshot where
  "snapshot_0800 = mk_snapshot 5 ''2024/01/02/08/00'' (utc_instant 738887 8 1)"

definition early_ride :: ride where
  "early_ride =
     \<lparr> ride_id = 8, ride_route_id = 1, scheduled_start_time = utc_instant 738887 8 0,
       Ride_is_from_gtfs = Some True \<rparr>"

text \<open>A ride in the window of 2024-01-03 whose flag is NULL.\<close>

definition null_flag_store :: store where
  "null_flag_store = empty_store
     \<lparr> rides :=
         [\<lparr> ride_id = 1, ride_route_id = 1, scheduled_start_time = utc_instant 738888 8 0,
            Ride_is_from_gtfs = None \<rparr>] \<rparr>"

text \<open>
  A snapshot that started in the window of 2024-01-02, ten minutes before its end, and
  whose identifier carries the date 2024-01-03.
\<close>

definition divergent_snapshot :: siri_snapshot where
  "divergent_snapshot = mk_snapshot 1 ''2024/01/03/00/05'' (utc_instant 738887 21 50)"

section \<open>Auxiliary notions for the statements\<close>

text \<open>The instants that the identifiers of a list parse to.\<close>

definition parsed_instants :: "env \<Rightarrow> string list \<Rightarrow> instant set" where
  "parsed_instants env ids = (\<lambda>i. the (parse_siri_snapshot_id env i)) ` set ids"

text \<open>The identifiers of the items of the snapshot generator.\<close>

abbreviation ids_of :: "(query list \<times> snapshot_summary) list \<Rightarrow> string list" where
  "ids_of its \<equiv> map (\<lambda>it. sum_snapshot_id (snd it)) its"

text \<open>The number of rides whose scheduled start time lies in the window of a day.\<close>

definition rides_in_window :: "env \<Rightarrow> store \<Rightarrow> date \<Rightarrow> nat" where
  "rides_in_window env db d =
     length (filter (\<lambda>r. in_window (israel_midnight env d)
                            (israel_midnight env d + timedelta_days 1) (scheduled_start_time r))
               (rides db))"

text \<open>The store with further snapshots and rides.\<close>

definition add_rows :: "store \<Rightarrow> siri_snapshot list \<Rightarrow> ride list \<Rightarrow> store" where
  "add_rows db ss rs = db \<lparr> siri_snapshots := siri_snapshots db @ ss, rides := rides db @ rs \<rparr>"

text \<open>
  The month and the day of the month of the \<open>n\<close>-th day of a year, counted from zero: the
  last lines of \<^verbatim>\<open>ord2ymd\<close>, on their own.
\<close>

definition month_day :: "bool \<Rightarrow> int \<Rightarrow> int \<times> int" where
  "month_day leapyear n =
     (let month = (n + 50) div 32;
          preceding = DAYS_BEFORE_MONTH ! nat month
                      + (if month > 2 \<and> leapyear then 1 else 0)
      in if preceding > n
         then (let month' = month - 1;
                   preceding' = preceding - (DAYS_IN_MONTH ! nat month'
                                  + (if month' = 2 \<and> leapyear then 1 else 0))
               in (month', n - preceding' + 1))
         else (month, n - preceding + 1))"

text \<open>A string of decimal digits read as a number.\<close>

definition digit_value :: "char \<Rightarrow> nat" where
  "digit_value c = of_char c - 48"

definition decimal_value :: "string \<Rightarrow> nat" where
  "decimal_value s = foldl (\<lambda>acc c. 10 * acc + digit_value c) 0 s"

section \<open>Auxiliary lemmas\<close>

lemma sql_like_percent: "sql_like ''%'' s"
  by (induction s) auto

lemma sql_like_prefix:
  "CHR ''%'' \<notin> set p \<Longrightarrow> CHR ''_'' \<notin> set p \<Longrightarrow> sql_like (p @ ''%'') s = prefix p s"
proof (induction p arbitrary: s)
  case Nil
  then show ?case using sql_like_percent by simp
next
  case (Cons a p)
  then show ?case by (cases s) auto
qed

lemma digit_in: "digit n \<in> set ''0123456789''"
  unfolding digit_def by (rule nth_mem) simp

lemma digit_not_wild:
  "digit n \<noteq> CHR ''%''" "digit n \<noteq> CHR ''_''" "CHR ''%'' \<noteq> digit n" "CHR ''_'' \<noteq> digit n"
  using digit_in [of n] by auto

lemma strftime_no_wildcard:
  "CHR ''%'' \<notin> set (strftime_ymd d)" "CHR ''_'' \<notin> set (strftime_ymd d)"
  by (simp_all add: strftime_ymd_def fmt2_def fmt4_def digit_not_wild split: prod.splits)

lemma like_day_pattern:
  "sql_like (strftime_ymd d @ ''%'') s = prefix (strftime_ymd d) s"
  by (rule sql_like_prefix) (rule strftime_no_wildcard)+

lemma scan_snapshots_fst_Cons:
  "fst (scan_snapshots env ((qs, s) # rest) latest) =
     (case parse_siri_snapshot_id env (sum_snapshot_id s) of
        None \<Rightarrow> Inl MalformedIdentifier
      | Some dt \<Rightarrow>
          fst (scan_snapshots env rest
                 (case latest of None \<Rightarrow> Some dt
                  | Some l \<Rightarrow> if l < dt then Some dt else Some l)))"
  by (simp split: option.splits prod.splits)

lemma parsed_instants_Cons:
  "parse_siri_snapshot_id env (sum_snapshot_id s) = Some dt \<Longrightarrow>
   parsed_instants env (ids_of ((qs, s) # its)) = insert dt (parsed_instants env (ids_of its))"
  by (simp add: parsed_instants_def)

lemma scan_snapshots_Some:
  "\<forall>it \<in> set its. parse_siri_snapshot_id env (sum_snapshot_id (snd it)) \<noteq> None \<Longrightarrow>
   fst (scan_snapshots env its (Some l)) = Inr (Some (Max (insert l (parsed_instants env (ids_of its)))))"
proof (induction its arbitrary: l)
  case Nil
  then show ?case by (simp add: parsed_instants_def)
next
  case (Cons it its)
  obtain qs s where it: "it = (qs, s)" by (cases it)
  from Cons.prems obtain dt where dt: "parse_siri_snapshot_id env (sum_snapshot_id s) = Some dt"
    by (auto simp: it)
  have rest: "\<forall>it \<in> set its. parse_siri_snapshot_id env (sum_snapshot_id (snd it)) \<noteq> None"
    using Cons.prems by simp
  have fin: "finite (parsed_instants env (ids_of its))" by (simp add: parsed_instants_def)
  have m: "Max (insert (max l dt) (parsed_instants env (ids_of its)))
           = Max (insert l (insert dt (parsed_instants env (ids_of its))))"
    using fin by (cases "parsed_instants env (ids_of its) = {}") (auto simp: max.assoc max.commute)
  have upd: "(if l < dt then Some dt else Some l) = Some (max l dt)"
    by (simp add: max_def)
  show ?case
    unfolding it scan_snapshots_fst_Cons parsed_instants_Cons [OF dt]
    using Cons.IH [OF rest, of "max l dt"] m
    by (simp add: dt upd)
qed

lemma scan_snapshots_None:
  assumes "its \<noteq> []"
    and "\<forall>it \<in> set its. parse_siri_snapshot_id env (sum_snapshot_id (snd it)) \<noteq> None"
  shows "fst (scan_snapshots env its None) = Inr (Some (Max (parsed_instants env (ids_of its))))"
proof -
  from assms(1) obtain it rest where its: "its = it # rest" by (cases its) auto
  obtain qs s where it: "it = (qs, s)" by (cases it)
  from assms(2) obtain dt where dt: "parse_siri_snapshot_id env (sum_snapshot_id s) = Some dt"
    by (auto simp: its it)
  have rest: "\<forall>it \<in> set rest. parse_siri_snapshot_id env (sum_snapshot_id (snd it)) \<noteq> None"
    using assms(2) by (simp add: its)
  show ?thesis
    unfolding its it scan_snapshots_fst_Cons parsed_instants_Cons [OF dt]
    using scan_snapshots_Some [OF rest, of dt]
    by (simp add: dt)
qed

text \<open>The value that collect returns in print mode, from the outcome of the scan.\<close>

lemma collect_print_ret:
  "ret (collect env db n m from_arg True validate) =
     (case fst (scan_snapshots env (items (siri_snapshots_iterator db n)) None) of
        Inl e \<Rightarrow> Inl e
      | Inr None \<Rightarrow> Inr (Verdict (\<not> validate))
      | Inr (Some l) \<Rightarrow> Inr (Verdict (validate \<longrightarrow> \<not> l < utc_now env - timedelta_hours 1)))"
  by (simp add: collect_def Let_def split: prod.splits sum.splits option.splits)

lemma items_ids:
  "ids_of (items (siri_snapshots_iterator db n)) = map snapshot_id (latest_siri_snapshots db n)"
  by (simp add: siri_snapshots_iterator_def summary_of_def comp_def)

lemma items_empty:
  "items (siri_snapshots_iterator db n) = [] \<longleftrightarrow> latest_siri_snapshots db n = []"
  by (simp add: siri_snapshots_iterator_def)

lemma items_all_parse:
  "(\<forall>it \<in> set (items (siri_snapshots_iterator db n)).
       parse_siri_snapshot_id env (sum_snapshot_id (snd it)) \<noteq> None)
   \<longleftrightarrow> (\<forall>s \<in> set (latest_siri_snapshots db n). parse_siri_snapshot_id env (snapshot_id s) \<noteq> None)"
  by (simp add: siri_snapshots_iterator_def summary_of_def)

lemma collect_ret_all_parse:
  assumes "latest_siri_snapshots db n \<noteq> []"
    and "\<forall>s \<in> set (latest_siri_snapshots db n). parse_siri_snapshot_id env (snapshot_id s) \<noteq> None"
  shows "ret (collect env db n m from_arg True True) =
           Inr (Verdict (\<not> Max (parsed_instants env (map snapshot_id (latest_siri_snapshots db n)))
                            < utc_now env - timedelta_hours 1))"
proof -
  have "fst (scan_snapshots env (items (siri_snapshots_iterator db n)) None)
          = Inr (Some (Max (parsed_instants env (ids_of (items (siri_snapshots_iterator db n))))))"
  proof (rule scan_snapshots_None)
    show "items (siri_snapshots_iterator db n) \<noteq> []"
      using assms(1) by (simp only: items_empty not_False_eq_True)
    show "\<forall>it \<in> set (items (siri_snapshots_iterator db n)).
            parse_siri_snapshot_id env (sum_snapshot_id (snd it)) \<noteq> None"
      using assms(2) by (simp only: items_all_parse)
  qed
  then show ?thesis
    by (simp add: collect_print_ret items_ids)
qed

lemma scan_snapshots_ids:
  "ids_of its = ids_of its' \<Longrightarrow>
   fst (scan_snapshots env its latest) = fst (scan_snapshots env its' latest)"
proof (induction its arbitrary: its' latest)
  case Nil
  then show ?case by simp
next
  case (Cons it its)
  then obtain it' rest' where its': "its' = it' # rest'" by (cases its') auto
  obtain qs s where it: "it = (qs, s)" by (cases it)
  obtain qs' s' where it': "it' = (qs', s')" by (cases it')
  from Cons.prems have eq: "sum_snapshot_id s = sum_snapshot_id s'" and r: "ids_of its = ids_of rest'"
    by (simp_all add: its' it it')
  show ?case
    unfolding its' it it' scan_snapshots_fst_Cons eq
    by (simp add: Cons.IH [OF r] split: option.splits)
qed

lemma scan_snapshots_all_stale:
  "\<forall>it \<in> set its. \<exists>t. parse_siri_snapshot_id env (sum_snapshot_id (snd it)) = Some t \<and> t < bound \<Longrightarrow>
   \<forall>l. latest = Some l \<longrightarrow> l < bound \<Longrightarrow>
   \<exists>r. fst (scan_snapshots env its latest) = Inr r \<and> (\<forall>l. r = Some l \<longrightarrow> l < bound)"
proof (induction its arbitrary: latest)
  case Nil
  then show ?case by simp
next
  case (Cons it its)
  obtain qs s where it: "it = (qs, s)" by (cases it)
  from Cons.prems(1) obtain t where t: "parse_siri_snapshot_id env (sum_snapshot_id s) = Some t" "t < bound"
    by (auto simp: it)
  have rest: "\<forall>it \<in> set its. \<exists>t. parse_siri_snapshot_id env (sum_snapshot_id (snd it)) = Some t \<and> t < bound"
    using Cons.prems(1) by simp
  have "\<forall>l. (case latest of None \<Rightarrow> Some t | Some l \<Rightarrow> if l < t then Some t else Some l) = Some l \<longrightarrow> l < bound"
    using Cons.prems(2) t(2) by (auto split: option.splits if_splits)
  from Cons.IH [OF rest this] show ?case
    unfolding it scan_snapshots_fst_Cons by (simp add: t(1))
qed

subsection \<open>The concrete inputs, evaluated\<close>

lemma latest_stale: "latest_siri_snapshots stale_store 10 = [snapshot_1000]"
  by (simp add: latest_siri_snapshots_def slice_to_def stale_store_def empty_store_def)

lemma latest_fresh: "latest_siri_snapshots fresh_store 10 = [snapshot_1150]"
  by (simp add: latest_siri_snapshots_def slice_to_def fresh_store_def empty_store_def)

lemma latest_empty: "latest_siri_snapshots empty_store 10 = []"
  by (simp add: latest_siri_snapshots_def slice_to_def empty_store_def)

lemma latest_skewed: "latest_siri_snapshots skewed_store 1 = [snapshot_1000]"
  by (simp add: latest_siri_snapshots_def slice_to_def skewed_store_def empty_store_def
      backfilled_snapshot_def snapshot_1000_def mk_snapshot_def utc_instant_def timedelta_days_def timedelta_hours_def
      timedelta_minutes_def)

lemma latest_example_1: "latest_siri_snapshots example_store 1 = [snapshot_1150]"
  by (simp add: latest_siri_snapshots_def slice_to_def example_store_def
      snapshot_0902_def snapshot_1000_def snapshot_1150_def mk_snapshot_def utc_instant_def
      timedelta_days_def timedelta_hours_def timedelta_minutes_def)

lemma parse_1000:
  "parse_siri_snapshot_id example_env (snapshot_id snapshot_1000)
     = Some (utc_now example_env - timedelta_hours 2)"
  by (simp add: example_env_def example_parse_def snapshot_1000_def mk_snapshot_def
      utc_instant_def timedelta_days_def timedelta_hours_def timedelta_minutes_def)

lemma parse_1150:
  "parse_siri_snapshot_id example_env (snapshot_id snapshot_1150)
     = Some (utc_now example_env - timedelta_minutes 10)"
  by (simp add: example_env_def example_parse_def snapshot_1150_def mk_snapshot_def
      utc_instant_def timedelta_days_def timedelta_hours_def timedelta_minutes_def)

subsection \<open>Rows added to the store\<close>

lemma filter_none: "\<forall>x \<in> set xs. \<not> P x \<Longrightarrow> filter P xs = []"
  by (induction xs) auto

lemma count_etl_started_add:
  assumes "\<forall>s \<in> set ss. \<not> in_window f t (etl_start_time s)"
  shows "count_snapshots_by_etl_started (add_rows db ss rs) f t = count_snapshots_by_etl_started db f t"
  using assms by (simp add: count_snapshots_by_etl_started_def add_rows_def filter_none)

lemma count_snapshot_id_add:
  assumes "\<forall>s \<in> set ss. \<not> sql_like p (snapshot_id s)"
  shows "count_snapshots_by_snapshot_id (add_rows db ss rs) p = count_snapshots_by_snapshot_id db p"
  using assms by (simp add: count_snapshots_by_snapshot_id_def add_rows_def filter_none)

lemma count_vehicle_locations_add:
  assumes "\<forall>s \<in> set ss. \<not> sql_like p (snapshot_id s)"
  shows "count_vehicle_locations_by_snapshot_id (add_rows db ss rs) p
           = count_vehicle_locations_by_snapshot_id db p"
  unfolding count_vehicle_locations_by_snapshot_id_def add_rows_def
  by (rule arg_cong [where f = length], rule filter_cong) (use assms in \<open>auto simp: list_ex_iff\<close>)

lemma count_rides_add:
  assumes "\<forall>r \<in> set rs. \<not> in_window f t (scheduled_start_time r)"
  shows "count_rides (add_rows db ss rs) f t flag = count_rides db f t flag"
  using assms by (simp add: count_rides_def add_rows_def filter_none)

lemma count_routes_add:
  assumes "\<forall>r \<in> set rs. \<not> in_window f t (scheduled_start_time r)"
  shows "count_routes_by_rides (add_rows db ss rs) f t flag = count_routes_by_rides db f t flag"
  unfolding count_routes_by_rides_def add_rows_def
  by (rule arg_cong [where f = length], rule filter_cong) (use assms in \<open>auto simp: list_ex_iff\<close>)

lemma concat_map_append_none:
  "\<forall>x \<in> set ys. g x = [] \<Longrightarrow> concat (map g (xs @ ys)) = concat (map g xs)"
  by simp

lemma route_ride_rows_add:
  assumes "\<forall>r \<in> set rs. \<not> in_window f t (scheduled_start_time r)"
  shows "route_ride_rows (add_rows db ss rs) f t flag = route_ride_rows db f t flag"
proof -
  have rides: "rides (add_rows db ss rs) = rides db @ rs"
    and routes: "routes (add_rows db ss rs) = routes db"
    by (simp_all add: add_rows_def)
  show ?thesis
    unfolding route_ride_rows_def rides routes
  proof (rule arg_cong [where f = concat], rule map_cong [OF refl])
    fix rt
    show "concat (map (\<lambda>r. if ride_route_id r = route_id rt
                 then if in_window f t (scheduled_start_time r)
                      then if sql_where (flag (Route_is_from_gtfs rt)) then [(rt, r)] else []
                      else []
                 else []) (rides db @ rs))
        = concat (map (\<lambda>r. if ride_route_id r = route_id rt
                 then if in_window f t (scheduled_start_time r)
                      then if sql_where (flag (Route_is_from_gtfs rt)) then [(rt, r)] else []
                      else []
                 else []) (rides db))"
      by (rule concat_map_append_none) (use assms in simp)
  qed
qed

lemma count_route_stops_add:
  assumes "\<forall>r \<in> set rs. \<not> in_window f t (scheduled_start_time r)"
  shows "count_route_stops_by_route (add_rows db ss rs) f t flag = count_route_stops_by_route db f t flag"
  unfolding count_route_stops_by_route_def route_ride_rows_add [OF assms]
  by (simp add: add_rows_def)

lemma count_stops_add:
  assumes "\<forall>r \<in> set rs. \<not> in_window f t (scheduled_start_time r)"
  shows "count_stops_by_route_stop (add_rows db ss rs) f t flag = count_stops_by_route_stop db f t flag"
  unfolding count_stops_by_route_stop_def route_ride_rows_add [OF assms]
  by (simp add: add_rows_def)

subsection \<open>The counts of a day\<close>

lemma by_etl_started_field:
  "siri_snapshot_by_etl_started (day_stats_of env db d)
     = length (filter (\<lambda>s. in_window (israel_midnight env d)
                              (israel_midnight env d + timedelta_days 1) (etl_start_time s))
                 (siri_snapshots db))"
  by (simp add: day_stats_of_def Let_def count_snapshots_by_etl_started_def)

lemma by_snapshot_id_field:
  "siri_snapshot_by_snapshot_id (day_stats_of env db d)
     = length (filter (\<lambda>s. prefix (strftime_ymd d) (snapshot_id s)) (siri_snapshots db))"
  by (simp add: day_stats_of_def Let_def count_snapshots_by_snapshot_id_def like_day_pattern)

lemma sql_where_flag:
  "sql_where (sql_eq c True) = (c = Some True)"
  "sql_where (sql_ne c True) = (c = Some False)"
  by (cases c; simp add: sql_where_def sql_eq_def sql_ne_def)+

lemma ride_fields:
  "ride_is_from_gtfs (day_stats_of env db d)
     = length (filter (\<lambda>r. in_window (israel_midnight env d)
                              (israel_midnight env d + timedelta_days 1) (scheduled_start_time r)
                            \<and> Ride_is_from_gtfs r = Some True)
                 (rides db))"
  "ride_not_from_gtfs (day_stats_of env db d)
     = length (filter (\<lambda>r. in_window (israel_midnight env d)
                              (israel_midnight env d + timedelta_days 1) (scheduled_start_time r)
                            \<and> Ride_is_from_gtfs r = Some False)
                 (rides db))"
  by (simp_all add: day_stats_of_def Let_def count_rides_def sql_where_flag)

lemma add_rows_fields:
  "siri_snapshots (add_rows db ss rs) = siri_snapshots db @ ss"
  "rides (add_rows db ss rs) = rides db @ rs"
  by (simp_all add: add_rows_def)

lemma strftime_shape:
  "length (strftime_ymd d) = 11"
  "strftime_ymd d ! 4 = CHR ''/''" "strftime_ymd d ! 7 = CHR ''/''" "strftime_ymd d ! 10 = CHR ''/''"
  by (simp_all add: strftime_ymd_def fmt4_def fmt2_def split: prod.splits)

lemmas time_defs = utc_instant_def utc_plus_2_midnight_def timedelta_days_def
  timedelta_hours_def timedelta_minutes_def

lemma strftime_738887: "strftime_ymd 738887 = ''2024/01/02/''"
  by (simp add: strftime_ymd_def ord2ymd_def Let_def DAYS_BEFORE_MONTH_def DAYS_IN_MONTH_def
      fmt4_def fmt2_def digit_def)

lemma strftime_738888: "strftime_ymd 738888 = ''2024/01/03/''"
  by (simp add: strftime_ymd_def ord2ymd_def Let_def DAYS_BEFORE_MONTH_def DAYS_IN_MONTH_def
      fmt4_def fmt2_def digit_def)

lemma example_midnight: "israel_midnight example_env d = utc_plus_2_midnight d"
  by (simp add: example_env_def)

lemma empty_store_fields:
  "siri_snapshots empty_store = []" "rides empty_store = []"
  by (simp_all add: empty_store_def)

lemma split_complete_non_null:
  assumes "\<forall>r \<in> set (rides db). Ride_is_from_gtfs r \<noteq> None"
  shows "ride_is_from_gtfs (day_stats_of env db d) + ride_not_from_gtfs (day_stats_of env db d)
           = rides_in_window env db d"
proof -
  have "length (filter (\<lambda>r. P r \<and> Ride_is_from_gtfs r = Some True) rs)
        + length (filter (\<lambda>r. P r \<and> Ride_is_from_gtfs r = Some False) rs)
        = length (filter P rs)"
    if "\<forall>r \<in> set rs. Ride_is_from_gtfs r \<noteq> None" for P and rs :: "ride list"
    using that by (induction rs) auto
  from this [OF assms] show ?thesis
    by (simp add: ride_fields rides_in_window_def)
qed

subsection \<open>The selection of the latest snapshots\<close>

lemma sort_key_stable_flip:
  "filter (\<lambda>x. c = f x) (sort_key f zs) = filter (\<lambda>x. c = f x) zs"
  using sort_key_stable [of f c zs] by (simp add: eq_commute)

lemma sort_key_split:
  fixes f :: "'a \<Rightarrow> int"
  shows "sort_key f zs
       = sort_key f (filter (\<lambda>x. f x < k) zs) @ sort_key f (filter (\<lambda>x. \<not> f x < k) zs)"
proof (rule properties_for_sort_key)
  show "mset (sort_key f (filter (\<lambda>x. f x < k) zs) @ sort_key f (filter (\<lambda>x. \<not> f x < k) zs))
      = mset zs"
    by (induction zs) simp_all
next
  fix y
  show "filter (\<lambda>x. f y = f x)
          (sort_key f (filter (\<lambda>x. f x < k) zs) @ sort_key f (filter (\<lambda>x. \<not> f x < k) zs))
      = filter (\<lambda>x. f y = f x) zs"
    by (induction zs) (auto simp: sort_key_stable_flip)
next
  show "sorted (map f (sort_key f (filter (\<lambda>x. f x < k) zs)
                       @ sort_key f (filter (\<lambda>x. \<not> f x < k) zs)))"
    by (auto simp: sorted_append)
qed

lemma slice_to_take: "\<exists>k. slice_to n zs = take k zs"
  by (auto simp: slice_to_def)

lemma slice_to_length: "0 \<le> n \<Longrightarrow> length (slice_to n zs) = min (nat n) (length zs)"
  by (simp add: slice_to_def)

lemma latest_length:
  "0 \<le> n \<Longrightarrow> length (latest_siri_snapshots db n) = min (nat n) (length (siri_snapshots db))"
  by (simp add: latest_siri_snapshots_def slice_to_length)

lemma sorted_neg_rev:
  fixes g :: "'a \<Rightarrow> int"
  shows "sorted (map (\<lambda>x. - g x) ws) \<Longrightarrow> sorted (rev (map g ws))"
  by (induction ws) (auto simp: sorted_append)

lemma latest_sorted_desc:
  "sorted (rev (map etl_start_time (latest_siri_snapshots db n)))"
proof -
  obtain k where k: "latest_siri_snapshots db n
      = take k (sort_key (\<lambda>s. - etl_start_time s) (siri_snapshots db))"
    unfolding latest_siri_snapshots_def using slice_to_take by blast
  have "sorted (map (\<lambda>s. - etl_start_time s)
          (take k (sort_key (\<lambda>s. - etl_start_time s) (siri_snapshots db))))"
    unfolding take_map [symmetric] by (rule sorted_wrt_take) simp
  then show ?thesis
    unfolding k by (rule sorted_neg_rev)
qed

lemma latest_selection:
  "mset (latest_siri_snapshots db n) \<subseteq># mset (siri_snapshots db)"
  "\<forall>a \<in> set (latest_siri_snapshots db n).
     \<forall>b \<in># mset (siri_snapshots db) - mset (latest_siri_snapshots db n).
       etl_start_time b \<le> etl_start_time a"
proof -
  let ?S = "sort_key (\<lambda>s. - etl_start_time s) (siri_snapshots db)"
  obtain k where k: "latest_siri_snapshots db n = take k ?S"
    unfolding latest_siri_snapshots_def using slice_to_take by blast
  have split: "mset (siri_snapshots db) = mset (take k ?S) + mset (drop k ?S)"
    by (metis append_take_drop_id mset_append mset_sort)
  show "mset (latest_siri_snapshots db n) \<subseteq># mset (siri_snapshots db)"
    unfolding k split by simp
  have rest: "mset (siri_snapshots db) - mset (take k ?S) = mset (drop k ?S)"
    by (simp add: split)
  have "sorted (map (\<lambda>s. - etl_start_time s) (take k ?S @ drop k ?S))"
    by simp
  then have "\<forall>a \<in> set (take k ?S). \<forall>b \<in> set (drop k ?S). - etl_start_time a \<le> - etl_start_time b"
    unfolding map_append sorted_append by auto
  then show "\<forall>a \<in> set (latest_siri_snapshots db n).
     \<forall>b \<in># mset (siri_snapshots db) - mset (latest_siri_snapshots db n).
       etl_start_time b \<le> etl_start_time a"
    unfolding k rest by simp
qed

lemma latest_insert_older:
  assumes "0 \<le> n"
    and "siri_snapshots db = xs @ ys"
    and "nat n \<le> length (filter (\<lambda>x. etl_start_time s < etl_start_time x) (xs @ ys))"
  shows "latest_siri_snapshots (db \<lparr> siri_snapshots := xs @ s # ys \<rparr>) n
       = latest_siri_snapshots db n"
proof -
  let ?f = "\<lambda>s. - etl_start_time s"
  let ?A = "sort_key ?f (filter (\<lambda>x. ?f x < ?f s) (xs @ ys))"
  have len: "nat n \<le> length ?A"
    using assms(3) by simp
  have a: "filter (\<lambda>x. ?f x < ?f s) (xs @ s # ys) = filter (\<lambda>x. ?f x < ?f s) (xs @ ys)"
    by simp
  have "sort_key ?f (xs @ s # ys)
          = ?A @ sort_key ?f (filter (\<lambda>x. \<not> ?f x < ?f s) (xs @ s # ys))"
    using sort_key_split [of ?f "xs @ s # ys" "?f s"] unfolding a .
  then have "take (nat n) (sort_key ?f (xs @ s # ys)) = take (nat n) ?A"
    using len by simp
  moreover have "sort_key ?f (xs @ ys)
          = ?A @ sort_key ?f (filter (\<lambda>x. \<not> ?f x < ?f s) (xs @ ys))"
    by (rule sort_key_split)
  then have "take (nat n) (sort_key ?f (xs @ ys)) = take (nat n) ?A"
    using len by simp
  ultimately show ?thesis
    using assms(1) by (simp add: latest_siri_snapshots_def slice_to_def assms(2))
qed

lemma skewed_store_eq:
  "skewed_store = stale_store \<lparr> siri_snapshots := [] @ backfilled_snapshot # [snapshot_1000] \<rparr>"
  by (simp add: skewed_store_def stale_store_def backfilled_snapshot_def)

lemma stale_store_snapshots: "siri_snapshots stale_store = [] @ [snapshot_1000]"
  by (simp add: stale_store_def)

lemma backfilled_older:
  "etl_start_time backfilled_snapshot < etl_start_time snapshot_1000"
  by (simp add: backfilled_snapshot_def snapshot_1000_def mk_snapshot_def time_defs)

subsection \<open>The calendar\<close>

lemma div_mod_unique:
  fixes q r k :: int
  assumes "0 \<le> r" "r < k"
  shows "(k * q + r) div k = q" "(k * q + r) mod k = r"
  using assms by simp_all

lemma ord2ymd_unfold:
  "ord2ymd ordinal =
     (let n0 = ordinal - 1;
          n400 = n0 div 146097; na = n0 mod 146097;
          n100 = na div 36524; nb = na mod 36524;
          n4 = nb div 1461; nc = nb mod 1461;
          n1 = nc div 365; n = nc mod 365;
          year = n400 * 400 + 1 + n100 * 100 + n4 * 4 + n1
      in if n1 = 4 \<or> n100 = 4 then (year - 1, 12, 31)
         else (case month_day (n1 = 3 \<and> (n4 \<noteq> 24 \<or> n100 = 3)) n of
                 (m, d) \<Rightarrow> (year, m, d)))"
  unfolding ord2ymd_def month_day_def
  by (simp only: Let_def if_distrib [of "case_prod f" for f] prod.case)

lemma month_day_table:
  "\<forall>leap \<in> {True, False}. \<forall>m \<in> set [1..12]. \<forall>d \<in> set [1..31].
     d \<le> (if m = 2 \<and> leap then 29 else DAYS_IN_MONTH ! nat m)
     \<longrightarrow> month_day leap (DAYS_BEFORE_MONTH ! nat m + (if m > 2 \<and> leap then 1 else 0) + d - 1)
           = (m, d)"
  by code_simp

lemma days_in_month_le_31: "\<forall>m \<in> set [1..12]. DAYS_IN_MONTH ! nat m \<le> 31"
  by code_simp

lemma month_day_valid:
  assumes "1 \<le> m" "m \<le> 12" "1 \<le> d" "d \<le> (if m = 2 \<and> leap then 29 else DAYS_IN_MONTH ! nat m)"
  shows "month_day leap (DAYS_BEFORE_MONTH ! nat m + (if m > 2 \<and> leap then 1 else 0) + d - 1) = (m, d)"
proof -
  have m: "m \<in> set [1..12]" using assms by simp
  from m days_in_month_le_31 have "DAYS_IN_MONTH ! nat m \<le> 31" by blast
  with assms have d: "d \<in> set [1..31]" by (simp split: if_splits)
  have l: "leap \<in> {True, False}" by simp
  from month_day_table l m d assms(4) show ?thesis by blast
qed

lemma mod_zero_iff:
  fixes t k x :: int
  assumes "1 \<le> t" "t \<le> k"
  shows "((k * x + t) mod k = 0) = (t = k)"
proof (cases "t = k")
  case True
  then show ?thesis by simp
next
  case False
  with assms have "0 \<le> t" "t < k" by simp_all
  then have "(k * x + t) mod k = t" by (rule div_mod_unique)
  with assms False show ?thesis by simp
qed

lemma year_decomp:
  fixes y :: int
  obtains q c b a where "y = 400 * q + 100 * c + 4 * b + a + 1"
    and "0 \<le> c" "c \<le> 3" "0 \<le> b" "b \<le> 24" "0 \<le> a" "a \<le> 3"
proof -
  define q where "q = (y - 1) div 400"
  define r where "r = (y - 1) mod 400"
  define c where "c = r div 100"
  define s where "s = r mod 100"
  define b where "b = s div 4"
  define a where "a = s mod 4"
  have 1: "y - 1 = 400 * q + r" "0 \<le> r" "r < 400" by (simp_all add: q_def r_def)
  have 2: "r = 100 * c + s" "0 \<le> s" "s < 100" by (simp_all add: c_def s_def)
  have 3: "s = 4 * b + a" "0 \<le> a" "a < 4" by (simp_all add: b_def a_def)
  from 1 2 3 have "y = 400 * q + 100 * c + 4 * b + a + 1" by simp
  moreover from 1 2 3 have "0 \<le> c" "c \<le> 3" "0 \<le> b" "b \<le> 24" "0 \<le> a" "a \<le> 3" by simp_all
  ultimately show thesis by (rule that)
qed

lemma days_before_year_decomp:
  assumes "y = 400 * q + 100 * c + 4 * b + a + 1"
    and "0 \<le> c" "c \<le> 3" "0 \<le> b" "b \<le> 24" "0 \<le> a" "a \<le> 3"
  shows "days_before_year y = 146097 * q + 36524 * c + 1461 * b + 365 * a"
proof -
  have e4: "y - 1 = 4 * (100 * q + 25 * c + b) + a" using assms(1) by simp
  have e100: "y - 1 = 100 * (4 * q + c) + (4 * b + a)" using assms(1) by simp
  have e400: "y - 1 = 400 * q + (100 * c + 4 * b + a)" using assms(1) by simp
  have d4: "(y - 1) div 4 = 100 * q + 25 * c + b"
    unfolding e4 by (rule div_mod_unique) (use assms in simp_all)
  have d100: "(y - 1) div 100 = 4 * q + c"
    unfolding e100 by (rule div_mod_unique) (use assms in simp_all)
  have d400: "(y - 1) div 400 = q"
    unfolding e400 by (rule div_mod_unique) (use assms in simp_all)
  show ?thesis
    unfolding days_before_year_def Let_def d4 d100 d400 using assms(1) by simp
qed

lemma is_leap_decomp:
  assumes "y = 400 * q + 100 * c + 4 * b + a + 1"
    and "0 \<le> c" "c \<le> 3" "0 \<le> b" "b \<le> 24" "0 \<le> a" "a \<le> 3"
  shows "is_leap y = (a = 3 \<and> (b \<noteq> 24 \<or> c = 3))"
proof -
  have e4: "y = 4 * (100 * q + 25 * c + b) + (a + 1)" using assms(1) by simp
  have e100: "y = 100 * (4 * q + c) + (4 * b + a + 1)" using assms(1) by simp
  have e400: "y = 400 * q + (100 * c + 4 * b + a + 1)" using assms(1) by simp
  have m4: "(y mod 4 = 0) = (a + 1 = 4)"
    unfolding e4 by (rule mod_zero_iff) (use assms in simp_all)
  have m100: "(y mod 100 = 0) = (4 * b + a + 1 = 100)"
    unfolding e100 by (rule mod_zero_iff) (use assms in simp_all)
  have m400: "(y mod 400 = 0) = (100 * c + 4 * b + a + 1 = 400)"
    unfolding e400 by (rule mod_zero_iff) (use assms in simp_all)
  show ?thesis
    unfolding is_leap_def m4 m100 m400 using assms(2-) by auto
qed

lemma ord2ymd_steps:
  assumes "(ordinal - 1) div 146097 = n400" "(ordinal - 1) mod 146097 = na"
    and "na div 36524 = n100" "na mod 36524 = nb"
    and "nb div 1461 = n4" "nb mod 1461 = nc"
    and "nc div 365 = n1" "nc mod 365 = n"
  shows "ord2ymd ordinal =
     (if n1 = 4 \<or> n100 = 4 then (n400 * 400 + 1 + n100 * 100 + n4 * 4 + n1 - 1, 12, 31)
      else (case month_day (n1 = 3 \<and> (n4 \<noteq> 24 \<or> n100 = 3)) n of
              (m, d) \<Rightarrow> (n400 * 400 + 1 + n100 * 100 + n4 * 4 + n1, m, d)))"
  by (simp only: ord2ymd_unfold Let_def assms)

lemma month_day_last: "month_day True 365 = (12, 31)"
  by code_simp

lemma day_of_year_bounds:
  "\<forall>leap \<in> {True, False}. \<forall>m \<in> set [1..12]. \<forall>d \<in> set [1..31].
     d \<le> (if m = 2 \<and> leap then 29 else DAYS_IN_MONTH ! nat m)
     \<longrightarrow> 0 \<le> DAYS_BEFORE_MONTH ! nat m + (if m > 2 \<and> leap then 1 else 0) + d - 1
       \<and> DAYS_BEFORE_MONTH ! nat m + (if m > 2 \<and> leap then 1 else 0) + d - 1
           < (if leap then 366 else 365)"
  by code_simp

lemma ord2ymd_of_day_of_year:
  assumes "0 \<le> c" "c \<le> 3" "0 \<le> b" "b \<le> 24" "0 \<le> a" "a \<le> 3"
    and leap: "leap = (a = 3 \<and> (b \<noteq> 24 \<or> c = 3))"
    and off: "0 \<le> off" "off < (if leap then 366 else 365)"
  shows "ord2ymd (146097 * q + 36524 * c + 1461 * b + 365 * a + off + 1)
       = (case month_day leap off of (m, d) \<Rightarrow> (400 * q + 100 * c + 4 * b + a + 1, m, d))"
proof -
  let ?ord = "146097 * q + 36524 * c + 1461 * b + 365 * a + off + 1"
  consider (A) "off \<le> 364" | (B1) "off = 365" "b = 24" | (B2) "off = 365" "b \<le> 23"
    using assms(4) off(2) by atomize_elim (simp split: if_splits, linarith)
  then show ?thesis
  proof cases
    case A
    have e1: "?ord - 1 = 146097 * q + (36524 * c + 1461 * b + 365 * a + off)" by simp
    have e2: "36524 * c + 1461 * b + 365 * a + off = 36524 * c + (1461 * b + 365 * a + off)" by simp
    have e3: "1461 * b + 365 * a + off = 1461 * b + (365 * a + off)" by simp
    have s1: "(?ord - 1) div 146097 = q"
      "(?ord - 1) mod 146097 = 36524 * c + 1461 * b + 365 * a + off"
      unfolding e1 by (rule div_mod_unique; use assms A in simp)+
    have s2: "(36524 * c + 1461 * b + 365 * a + off) div 36524 = c"
      "(36524 * c + 1461 * b + 365 * a + off) mod 36524 = 1461 * b + 365 * a + off"
      unfolding e2 by (rule div_mod_unique; use assms A in simp)+
    have s3: "(1461 * b + 365 * a + off) div 1461 = b"
      "(1461 * b + 365 * a + off) mod 1461 = 365 * a + off"
      unfolding e3 by (rule div_mod_unique; use assms A in simp)+
    have s4: "(365 * a + off) div 365 = a" "(365 * a + off) mod 365 = off"
      by (rule div_mod_unique; use assms A in simp)+
    show ?thesis
      unfolding ord2ymd_steps [OF s1 s2 s3 s4] leap using assms(2,6) by simp
  next
    case B1
    with leap off have abc: "a = 3" "c = 3" by (auto split: if_splits)
    have e1: "?ord - 1 = 146097 * q + 146096" using B1 abc by simp
    have s1: "(?ord - 1) div 146097 = q" "(?ord - 1) mod 146097 = 146096"
      unfolding e1 by (rule div_mod_unique; simp)+
    have s2: "(146096::int) div 36524 = 4" "(146096::int) mod 36524 = 0" by simp_all
    have s3: "(0::int) div 1461 = 0" "(0::int) mod 1461 = 0" by simp_all
    have s4: "(0::int) div 365 = 0" "(0::int) mod 365 = 0" by simp_all
    show ?thesis
      unfolding ord2ymd_steps [OF s1 s2 s3 s4] using B1 abc leap by (simp add: month_day_last)
  next
    case B2
    with leap off have abc: "a = 3" by (auto split: if_splits)
    have e1: "?ord - 1 = 146097 * q + (36524 * c + 1461 * b + 1460)" using B2 abc by simp
    have e2: "36524 * c + 1461 * b + 1460 = 36524 * c + (1461 * b + 1460)" by simp
    have s1: "(?ord - 1) div 146097 = q"
      "(?ord - 1) mod 146097 = 36524 * c + 1461 * b + 1460"
      unfolding e1 by (rule div_mod_unique; use assms B2 in simp)+
    have s2: "(36524 * c + 1461 * b + 1460) div 36524 = c"
      "(36524 * c + 1461 * b + 1460) mod 36524 = 1461 * b + 1460"
      unfolding e2 by (rule div_mod_unique; use assms B2 in simp)+
    have s3: "(1461 * b + 1460) div 1461 = b" "(1461 * b + 1460) mod 1461 = 1460"
      by (rule div_mod_unique; use assms B2 in simp)+
    have s4: "(1460::int) div 365 = 4" "(1460::int) mod 365 = 0" by simp_all
    show ?thesis
      unfolding ord2ymd_steps [OF s1 s2 s3 s4] using B2 abc leap by (simp add: month_day_last)
  qed
qed

lemma ord2ymd_ymd2ord:
  assumes "1 \<le> m" "m \<le> 12" "1 \<le> d" "d \<le> days_in_month y m"
  shows "ord2ymd (ymd2ord y m d) = (y, m, d)"
proof -
  obtain q c b a where y: "y = 400 * q + 100 * c + 4 * b + a + 1"
    and bounds: "0 \<le> c" "c \<le> 3" "0 \<le> b" "b \<le> 24" "0 \<le> a" "a \<le> 3"
    by (rule year_decomp)
  define off where "off = DAYS_BEFORE_MONTH ! nat m + (if m > 2 \<and> is_leap y then 1 else 0) + d - 1"
  have dim: "d \<le> (if m = 2 \<and> is_leap y then 29 else DAYS_IN_MONTH ! nat m)"
    using assms(4) by (simp add: days_in_month_def)
  have m: "m \<in> set [1..12]" using assms by simp
  from m days_in_month_le_31 have "DAYS_IN_MONTH ! nat m \<le> 31" by blast
  with assms dim have d: "d \<in> set [1..31]" by (simp split: if_splits)
  have l: "is_leap y \<in> {True, False}" by simp
  from day_of_year_bounds l m d dim
  have off: "0 \<le> off" "off < (if is_leap y then 366 else 365)"
    unfolding off_def by blast+
  have md: "month_day (is_leap y) off = (m, d)"
    unfolding off_def using assms(1-3) dim by (rule month_day_valid)
  have ord: "ymd2ord y m d = 146097 * q + 36524 * c + 1461 * b + 365 * a + off + 1"
    by (simp add: ymd2ord_def days_before_month_def off_def
        days_before_year_decomp [OF y bounds])
  show ?thesis
    unfolding ord ord2ymd_of_day_of_year [OF bounds is_leap_decomp [OF y bounds] off] md
    using y by simp
qed

lemma month_day_inverse_table:
  "\<forall>leap \<in> {True, False}. \<forall>n \<in> set [0..364].
     (case month_day leap n of (m, dd) \<Rightarrow>
        1 \<le> m \<and> m \<le> 12 \<and> 1 \<le> dd
        \<and> dd \<le> (if m = 2 \<and> leap then 29 else DAYS_IN_MONTH ! nat m)
        \<and> DAYS_BEFORE_MONTH ! nat m + (if m > 2 \<and> leap then 1 else 0) + dd - 1 = n)"
  by code_simp

lemma month_day_inverse:
  assumes "0 \<le> n" "n < 365" "month_day leap n = (m, dd)"
  shows "1 \<le> m \<and> m \<le> 12 \<and> 1 \<le> dd
        \<and> dd \<le> (if m = 2 \<and> leap then 29 else DAYS_IN_MONTH ! nat m)
        \<and> DAYS_BEFORE_MONTH ! nat m + (if m > 2 \<and> leap then 1 else 0) + dd - 1 = n"
proof -
  have n: "n \<in> set [0..364]" using assms by simp
  have l: "leap \<in> {True, False}" by simp
  have "case month_day leap n of (m, dd) \<Rightarrow>
        1 \<le> m \<and> m \<le> 12 \<and> 1 \<le> dd
        \<and> dd \<le> (if m = 2 \<and> leap then 29 else DAYS_IN_MONTH ! nat m)
        \<and> DAYS_BEFORE_MONTH ! nat m + (if m > 2 \<and> leap then 1 else 0) + dd - 1 = n"
    by (rule bspec [OF bspec [OF month_day_inverse_table l] n])
  then show ?thesis unfolding assms(3) by simp
qed

lemma last_day_of_leap_year:
  assumes "is_leap y"
  shows "12 \<le> (12::int) \<and> 31 \<le> days_in_month y 12
       \<and> ymd2ord y 12 31 = days_before_year y + 366"
  using assms
  by (simp add: days_in_month_def ymd2ord_def days_before_month_def DAYS_IN_MONTH_def
      DAYS_BEFORE_MONTH_def)

lemma ymd2ord_ord2ymd:
  "case ord2ymd d of (y, m, dd) \<Rightarrow>
     1 \<le> m \<and> m \<le> 12 \<and> 1 \<le> dd \<and> dd \<le> days_in_month y m \<and> ymd2ord y m dd = d"
proof -
  define n400 where "n400 = (d - 1) div 146097"
  define na where "na = (d - 1) mod 146097"
  define n100 where "n100 = na div 36524"
  define nb where "nb = na mod 36524"
  define n4 where "n4 = nb div 1461"
  define nc where "nc = nb mod 1461"
  define n1 where "n1 = nc div 365"
  define n where "n = nc mod 365"
  have 1: "d - 1 = 146097 * n400 + na" "0 \<le> na" "na < 146097" by (simp_all add: n400_def na_def)
  have 2: "na = 36524 * n100 + nb" "0 \<le> nb" "nb < 36524" by (simp_all add: n100_def nb_def)
  have 3: "nb = 1461 * n4 + nc" "0 \<le> nc" "nc < 1461" by (simp_all add: n4_def nc_def)
  have 4: "nc = 365 * n1 + n" "0 \<le> n" "n < 365" by (simp_all add: n1_def n_def)
  have b100: "0 \<le> n100" "n100 \<le> 4" using 1 2 by simp_all
  have b4: "0 \<le> n4" "n4 \<le> 24" using 2 3 by simp_all
  have b1: "0 \<le> n1" "n1 \<le> 4" using 3 4 by simp_all
  have d: "d = 146097 * n400 + 36524 * n100 + 1461 * n4 + 365 * n1 + n + 1"
    using 1 2 3 4 by simp
  note steps = ord2ymd_steps [OF n400_def [symmetric] na_def [symmetric] n100_def [symmetric]
      nb_def [symmetric] n4_def [symmetric] nc_def [symmetric] n1_def [symmetric] n_def [symmetric]]
  consider (i) "n100 = 4" | (ii) "n100 \<le> 3" "n1 = 4" | (iii) "n100 \<le> 3" "n1 \<le> 3"
    using b100 b1 by atomize_elim linarith
  then show ?thesis
  proof cases
    case i
    with 1 2 3 4 b4 b1 have z: "n4 = 0" "n1 = 0" "n = 0" by simp_all
    define y where "y = 400 * n400 + 400"
    have y: "y = 400 * n400 + 100 * 3 + 4 * 24 + 3 + 1" by (simp add: y_def)
    have leap: "is_leap y" by (simp add: is_leap_decomp [OF y])
    have dby: "days_before_year y = 146097 * n400 + 145731"
      by (simp add: days_before_year_decomp [OF y])
    have o: "ord2ymd d = (y, 12, 31)" unfolding steps using i z by (simp add: y_def)
    show ?thesis
      unfolding o using last_day_of_leap_year [OF leap] dby d i z by simp
  next
    case ii
    with 3 4 have n: "n = 0" by simp
    from ii 2 3 4 b4 have n4: "n4 \<le> 23" by simp
    define y where "y = 400 * n400 + 100 * n100 + 4 * n4 + 4"
    have y: "y = 400 * n400 + 100 * n100 + 4 * n4 + 3 + 1" by (simp add: y_def)
    have leap: "is_leap y"
      using n4 by (simp add: is_leap_decomp [OF y b100(1) ii(1) b4])
    have dby: "days_before_year y = 146097 * n400 + 36524 * n100 + 1461 * n4 + 1095"
      by (simp add: days_before_year_decomp [OF y b100(1) ii(1) b4])
    have o: "ord2ymd d = (y, 12, 31)" unfolding steps using ii by (simp add: y_def)
    show ?thesis
      unfolding o using last_day_of_leap_year [OF leap] dby d ii n by simp
  next
    case iii
    define y where "y = 400 * n400 + 100 * n100 + 4 * n4 + n1 + 1"
    note bounds = b100(1) iii(1) b4 b1(1) iii(2)
    have leap: "is_leap y = (n1 = 3 \<and> (n4 \<noteq> 24 \<or> n100 = 3))"
      by (rule is_leap_decomp [OF y_def bounds])
    have dby: "days_before_year y = 146097 * n400 + 36524 * n100 + 1461 * n4 + 365 * n1"
      by (rule days_before_year_decomp [OF y_def bounds])
    obtain m dd where md: "month_day (is_leap y) n = (m, dd)" by (cases "month_day (is_leap y) n")
    have o: "ord2ymd d = (y, m, dd)"
      unfolding steps leap [symmetric] md using iii by (simp add: y_def)
    from month_day_inverse [OF 4(2,3) md]
    show ?thesis
      unfolding o using dby d
      by (simp add: days_in_month_def ymd2ord_def days_before_month_def)
  qed
qed

lemma digit_value_table: "\<forall>k \<in> set [0..<10]. digit_value (''0123456789'' ! k) = k"
  by code_simp

lemma digit_value_digit: "digit_value (digit n) = n mod 10"
proof -
  have "n mod 10 \<in> set [0..<10]" by simp
  with digit_value_table show ?thesis unfolding digit_def by blast
qed

lemma decimal_value_fmt2: "n < 100 \<Longrightarrow> decimal_value (fmt2 n) = n"
  by (simp add: decimal_value_def fmt2_def digit_value_digit)

lemma decimal_value_fmt4:
  assumes "n < 10000"
  shows "decimal_value (fmt4 n) = n"
proof -
  have a: "n div 1000 mod 10 = n div 1000" using assms by simp
  have b: "n div 100 = 10 * (n div 1000) + n div 100 mod 10"
    using div_mult2_eq [of n 100 10] by simp
  have c: "n div 10 = 10 * (n div 100) + n div 10 mod 10"
    using div_mult2_eq [of n 10 10] by simp
  have d: "n = 10 * (n div 10) + n mod 10" by simp
  have "decimal_value (fmt4 n)
      = 10 * (10 * (10 * (n div 1000) + n div 100 mod 10) + n div 10 mod 10) + n mod 10"
    by (simp add: decimal_value_def fmt4_def digit_value_digit a)
  also have "\<dots> = n" using b c d by simp
  finally show ?thesis .
qed

lemma fmt_digits:
  "set (fmt4 a) \<subseteq> set ''0123456789''" "set (fmt2 a) \<subseteq> set ''0123456789''"
  using digit_in by (simp_all add: fmt4_def fmt2_def)

lemma strftime_segments:
  "take 4 (fmt4 a @ ''/'' @ fmt2 b @ ''/'' @ fmt2 c @ ''/'') = fmt4 a"
  "take 2 (drop 5 (fmt4 a @ ''/'' @ fmt2 b @ ''/'' @ fmt2 c @ ''/'')) = fmt2 b"
  "take 2 (drop 8 (fmt4 a @ ''/'' @ fmt2 b @ ''/'' @ fmt2 c @ ''/'')) = fmt2 c"
  by (simp_all add: fmt4_def fmt2_def)

lemma days_in_month_le_31_valid:
  assumes "1 \<le> m" "m \<le> 12" "dd \<le> days_in_month y m"
  shows "dd \<le> 31"
proof -
  have m: "m \<in> set [1..12]" using assms by simp
  from m days_in_month_le_31 have "DAYS_IN_MONTH ! nat m \<le> 31" by blast
  with assms(3) show ?thesis by (simp add: days_in_month_def split: if_splits)
qed

lemma strftime_of_date:
  assumes "1 \<le> m" "m \<le> 12" "1 \<le> dd" "dd \<le> days_in_month y m" "ymd2ord y m dd = d"
  shows "ord2ymd d = (y, m, dd)"
    and "strftime_ymd d = fmt4 (nat y) @ ''/'' @ fmt2 (nat m) @ ''/'' @ fmt2 (nat dd) @ ''/''"
proof -
  show o: "ord2ymd d = (y, m, dd)"
    unfolding assms(5) [symmetric] using assms(1-4) by (rule ord2ymd_ymd2ord)
  show "strftime_ymd d = fmt4 (nat y) @ ''/'' @ fmt2 (nat m) @ ''/'' @ fmt2 (nat dd) @ ''/''"
    by (simp add: strftime_ymd_def o)
qed

lemma strftime_reads_back:
  assumes "1 \<le> y" "y \<le> 9999" "1 \<le> m" "m \<le> 12" "1 \<le> dd" "dd \<le> 31"
  shows "int (decimal_value (fmt4 (nat y))) = y"
    and "int (decimal_value (fmt2 (nat m))) = m"
    and "int (decimal_value (fmt2 (nat dd))) = dd"
  using assms by (simp_all add: decimal_value_fmt4 decimal_value_fmt2)

section \<open>The claims\<close>

text \<open>
  Claim C1, as amended. With \<^verbatim>\<open>print_results=False\<close> and \<^verbatim>\<open>validate=True\<close> the call fails with the
  assertion error after exactly one query, the count of all snapshots, has been issued:
  the dictionary \<^verbatim>\<open>res\<close> is built before the assertion is reached. Neither generator is
  started, nothing is printed and no result is returned.
\<close>

theorem collect_validate_without_print:
  "collect env db n m from_arg False True =
     \<lparr> ret = Inl (AssertionError ''validate is not supported if print_results is False''),
       queries = [CountSiriSnapshots], printed = [] \<rparr>"
  by (simp add: collect_def Let_def)

theorem collect_validate_without_print_witness:
  "ret (collect example_env example_store 10 5 None False True)
     = Inl (AssertionError ''validate is not supported if print_results is False'')
   \<and> queries (collect example_env example_store 10 5 None False True) = [CountSiriSnapshots]
   \<and> printed (collect example_env example_store 10 5 None False True) = []"
  using collect_validate_without_print [of example_env example_store 10 5 None] by simp

text \<open>The claim as stated fails: a query has been issued when the assertion fails.\<close>

theorem collect_assert_after_count_counterexample:
  "queries (collect example_env empty_store 10 5 None False True) \<noteq> []"
  by (simp add: collect_def Let_def)

text \<open>
  Claim C5. When the inventory is not empty and every identifier parses, validation returns
  false exactly when the greatest parsed instant is earlier than the current UTC instant
  minus one hour. A single summary that parses to two hours ago gives false, one that parses
  to ten minutes ago gives true.
\<close>

theorem freshness_tracks_maximum:
  "(latest_siri_snapshots db n \<noteq> []
      \<and> (\<forall>s \<in> set (latest_siri_snapshots db n). parse_siri_snapshot_id env (snapshot_id s) \<noteq> None)
    \<longrightarrow> ret (collect env db n m from_arg True True) =
          Inr (Verdict (\<not> Max (parsed_instants env (map snapshot_id (latest_siri_snapshots db n)))
                           < utc_now env - timedelta_hours 1)))
   \<and> (latest_siri_snapshots db n = [s]
      \<and> parse_siri_snapshot_id env (snapshot_id s) = Some (utc_now env - timedelta_hours 2)
    \<longrightarrow> ret (collect env db n m from_arg True True) = Inr (Verdict False))
   \<and> (latest_siri_snapshots db n = [s]
      \<and> parse_siri_snapshot_id env (snapshot_id s) = Some (utc_now env - timedelta_minutes 10)
    \<longrightarrow> ret (collect env db n m from_arg True True) = Inr (Verdict True))"
proof (intro conjI impI)
  assume "latest_siri_snapshots db n \<noteq> []
      \<and> (\<forall>s \<in> set (latest_siri_snapshots db n). parse_siri_snapshot_id env (snapshot_id s) \<noteq> None)"
  then show "ret (collect env db n m from_arg True True) =
          Inr (Verdict (\<not> Max (parsed_instants env (map snapshot_id (latest_siri_snapshots db n)))
                           < utc_now env - timedelta_hours 1))"
    by (simp add: collect_ret_all_parse)
next
  assume a: "latest_siri_snapshots db n = [s]
      \<and> parse_siri_snapshot_id env (snapshot_id s) = Some (utc_now env - timedelta_hours 2)"
  then have "ret (collect env db n m from_arg True True) =
          Inr (Verdict (\<not> Max (parsed_instants env (map snapshot_id (latest_siri_snapshots db n)))
                           < utc_now env - timedelta_hours 1))"
    by (intro collect_ret_all_parse) simp_all
  with a show "ret (collect env db n m from_arg True True) = Inr (Verdict False)"
    by (simp add: parsed_instants_def timedelta_hours_def)
next
  assume a: "latest_siri_snapshots db n = [s]
      \<and> parse_siri_snapshot_id env (snapshot_id s) = Some (utc_now env - timedelta_minutes 10)"
  then have "ret (collect env db n m from_arg True True) =
          Inr (Verdict (\<not> Max (parsed_instants env (map snapshot_id (latest_siri_snapshots db n)))
                           < utc_now env - timedelta_hours 1))"
    by (intro collect_ret_all_parse) simp_all
  with a show "ret (collect env db n m from_arg True True) = Inr (Verdict True)"
    by (simp add: parsed_instants_def timedelta_hours_def timedelta_minutes_def)
qed

theorem freshness_tracks_maximum_witness:
  "ret (collect example_env stale_store 10 5 None True True) = Inr (Verdict False)
   \<and> ret (collect example_env fresh_store 10 5 None True True) = Inr (Verdict True)"
proof -
  have s: "latest_siri_snapshots stale_store 10 = [snapshot_1000]
      \<and> parse_siri_snapshot_id example_env (snapshot_id snapshot_1000)
          = Some (utc_now example_env - timedelta_hours 2)"
    by (simp add: latest_stale parse_1000)
  have f: "latest_siri_snapshots fresh_store 10 = [snapshot_1150]
      \<and> parse_siri_snapshot_id example_env (snapshot_id snapshot_1150)
          = Some (utc_now example_env - timedelta_minutes 10)"
    by (simp add: latest_fresh parse_1150)
  from s f
    freshness_tracks_maximum [of stale_store 10 example_env 5 None snapshot_1000]
    freshness_tracks_maximum [of fresh_store 10 example_env 5 None snapshot_1150]
  show ?thesis by blast
qed

text \<open>
  Claim C6. When the generator yields no summary, validation returns false (it does not
  raise), the last line printed is the diagnostic for a missing snapshot, and neither the
  staleness diagnostic nor the success message is printed.
\<close>

theorem empty_inventory_not_fresh:
  assumes "latest_siri_snapshots db n = []"
  shows "ret (collect env db n m from_arg True True) = Inr (Verdict False)
       \<and> last (printed (collect env db n m from_arg True True)) = ValidationErrorNoLatestSnapshot
       \<and> (\<forall>t. ValidationErrorOlderThanHour t \<notin> set (printed (collect env db n m from_arg True True)))
       \<and> (\<forall>t. ValidationSuccess t \<notin> set (printed (collect env db n m from_arg True True)))"
  using assms
  by (auto simp: collect_def Let_def siri_snapshots_iterator_def)

theorem empty_inventory_not_fresh_witness:
  "ret (collect example_env empty_store 10 5 None True True) = Inr (Verdict False)
   \<and> last (printed (collect example_env empty_store 10 5 None True True))
       = ValidationErrorNoLatestSnapshot"
  using empty_inventory_not_fresh [OF latest_empty, of example_env 5 None] by simp



text \<open>
  Claim C9. The value returned by a validating call depends on the store only through the
  rows selected by \<^verbatim>\<open>order_by(desc(etl_start_time))[:limit]\<close>: two stores with the same
  selection give the same value, and when every selected identifier parses to an instant
  older than one hour the verdict is false, whatever the other rows of the table are.
  The selection is that of the greatest start times: for a limit \<open>n \<ge> 0\<close> it has \<open>n\<close> rows
  (all of them when the table has fewer), it is in descending order of start time, its
  rows are rows of the table, and no row left out started later than a selected one.
  A further row, at any place in the table, whose start time is exceeded by that of at least
  \<open>n\<close> rows changes neither the selection nor the returned value, whatever its identifier
  parses to.
\<close>

theorem verdict_depends_on_latest_only:
  "(latest_siri_snapshots db1 n = latest_siri_snapshots db2 n
      \<longrightarrow> ret (collect env db1 n m from_arg True True) = ret (collect env db2 n m from_arg True True))
   \<and> ((\<forall>s \<in> set (latest_siri_snapshots db1 n).
          \<exists>t. parse_siri_snapshot_id env (snapshot_id s) = Some t \<and> t < utc_now env - timedelta_hours 1)
      \<longrightarrow> ret (collect env db1 n m from_arg True True) = Inr (Verdict False))
   \<and> (0 \<le> n \<longrightarrow>
        length (latest_siri_snapshots db1 n) = min (nat n) (length (siri_snapshots db1)))
   \<and> sorted (rev (map etl_start_time (latest_siri_snapshots db1 n)))
   \<and> mset (latest_siri_snapshots db1 n) \<subseteq># mset (siri_snapshots db1)
   \<and> (\<forall>a \<in> set (latest_siri_snapshots db1 n).
        \<forall>b \<in># mset (siri_snapshots db1) - mset (latest_siri_snapshots db1 n).
          etl_start_time b \<le> etl_start_time a)
   \<and> (0 \<le> n \<and> siri_snapshots db1 = xs @ ys
        \<and> nat n \<le> length (filter (\<lambda>x. etl_start_time s < etl_start_time x) (xs @ ys))
      \<longrightarrow> latest_siri_snapshots (db1 \<lparr> siri_snapshots := xs @ s # ys \<rparr>) n
            = latest_siri_snapshots db1 n
          \<and> ret (collect env (db1 \<lparr> siri_snapshots := xs @ s # ys \<rparr>) n m from_arg True True)
            = ret (collect env db1 n m from_arg True True))"
proof -
  have same: "ret (collect env da n m from_arg True True) = ret (collect env db n m from_arg True True)"
    if "latest_siri_snapshots da n = latest_siri_snapshots db n" for da db
  proof -
    from that
    have "ids_of (items (siri_snapshots_iterator da n)) = ids_of (items (siri_snapshots_iterator db n))"
      by (simp only: items_ids)
    then have "fst (scan_snapshots env (items (siri_snapshots_iterator da n)) None)
             = fst (scan_snapshots env (items (siri_snapshots_iterator db n)) None)"
      by (rule scan_snapshots_ids)
    then show ?thesis
      by (simp add: collect_print_ret)
  qed
  have stale: "ret (collect env db1 n m from_arg True True) = Inr (Verdict False)"
    if "\<forall>s \<in> set (latest_siri_snapshots db1 n).
          \<exists>t. parse_siri_snapshot_id env (snapshot_id s) = Some t \<and> t < utc_now env - timedelta_hours 1"
  proof -
    from that
    have "\<forall>it \<in> set (items (siri_snapshots_iterator db1 n)).
          \<exists>t. parse_siri_snapshot_id env (sum_snapshot_id (snd it)) = Some t
             \<and> t < utc_now env - timedelta_hours 1"
      by (simp add: siri_snapshots_iterator_def summary_of_def)
    from scan_snapshots_all_stale [OF this, of None]
    obtain r where "fst (scan_snapshots env (items (siri_snapshots_iterator db1 n)) None) = Inr r"
      and "\<forall>l. r = Some l \<longrightarrow> l < utc_now env - timedelta_hours 1"
      by auto
    then show ?thesis
      by (cases r) (simp_all add: collect_print_ret)
  qed
  have ins: "latest_siri_snapshots (db1 \<lparr> siri_snapshots := xs @ s # ys \<rparr>) n
            = latest_siri_snapshots db1 n"
    if "0 \<le> n \<and> siri_snapshots db1 = xs @ ys
        \<and> nat n \<le> length (filter (\<lambda>x. etl_start_time s < etl_start_time x) (xs @ ys))"
    using that by (intro latest_insert_older) simp_all
  show ?thesis
    using same [of db1 db2] same [of "db1 \<lparr> siri_snapshots := xs @ s # ys \<rparr>" db1] stale ins
      latest_length [of n db1] latest_sorted_desc [of db1 n] latest_selection [of db1 n]
    by blast
qed

theorem verdict_depends_on_latest_only_witness:
  "ret (collect example_env example_store 1 5 None True True)
     = ret (collect example_env fresh_store 1 5 None True True)
   \<and> ret (collect example_env skewed_store 1 5 None True True) = Inr (Verdict False)
   \<and> length (latest_siri_snapshots skewed_store 1) = 1
   \<and> etl_start_time backfilled_snapshot \<le> etl_start_time snapshot_1000
   \<and> ret (collect example_env skewed_store 1 5 None True True)
     = ret (collect example_env stale_store 1 5 None True True)"
proof -
  have a: "latest_siri_snapshots example_store 1 = latest_siri_snapshots fresh_store 1"
    by (simp add: latest_example_1)
       (simp add: latest_siri_snapshots_def slice_to_def fresh_store_def empty_store_def)
  have b: "\<forall>s \<in> set (latest_siri_snapshots skewed_store 1).
          \<exists>t. parse_siri_snapshot_id example_env (snapshot_id s) = Some t
             \<and> t < utc_now example_env - timedelta_hours 1"
    by (simp add: latest_skewed parse_1000 timedelta_hours_def)
  have c: "(0::int) \<le> 1" by simp
  have d: "snapshot_1000 \<in> set (latest_siri_snapshots skewed_store 1)"
    by (simp add: latest_skewed)
  have e: "backfilled_snapshot
            \<in># mset (siri_snapshots skewed_store) - mset (latest_siri_snapshots skewed_store 1)"
    by (simp add: latest_skewed) (simp add: skewed_store_eq)
  have f: "(0::int) \<le> 1 \<and> siri_snapshots stale_store = [] @ [snapshot_1000]
      \<and> nat 1 \<le> length (filter (\<lambda>x. etl_start_time backfilled_snapshot < etl_start_time x)
                          ([] @ [snapshot_1000]))"
    by (simp add: stale_store_snapshots backfilled_older)
  note t1 = verdict_depends_on_latest_only
    [of example_store 1 fresh_store example_env 5 None "[]" "[]" backfilled_snapshot]
  note t2 = verdict_depends_on_latest_only
    [of skewed_store 1 skewed_store example_env 5 None "[]" "[]" backfilled_snapshot]
  note t3 = verdict_depends_on_latest_only
    [of stale_store 1 stale_store example_env 5 None "[]" "[snapshot_1000]" backfilled_snapshot]
  from t1 a have g1: "ret (collect example_env example_store 1 5 None True True)
     = ret (collect example_env fresh_store 1 5 None True True)" by blast
  from t2 b have g2: "ret (collect example_env skewed_store 1 5 None True True) = Inr (Verdict False)"
    by blast
  from t2 c have g3: "length (latest_siri_snapshots skewed_store 1) = 1"
    by (simp add: skewed_store_eq)
  from t2 d e have g4: "etl_start_time backfilled_snapshot \<le> etl_start_time snapshot_1000"
    by blast
  from t3 f have g5: "ret (collect example_env skewed_store 1 5 None True True)
     = ret (collect example_env stale_store 1 5 None True True)"
    unfolding skewed_store_eq by blast
  from g1 g2 g3 g4 g5 show ?thesis by blast
qed

text \<open>
  Claim C10. With a limit of zero the snapshot generator issues its one \<^verbatim>\<open>SELECT\<close> and
  yields nothing, so no query is issued for any item; the day generator yields nothing and
  issues no query at all; and a printing call with both limits zero returns normally. The
  generators have no failure of their own in this model.
\<close>

theorem zero_limit_yields_nothing:
  "items (siri_snapshots_iterator db 0) = []
   \<and> on_start (siri_snapshots_iterator db 0) = [SelectLatestSiriSnapshots 0]
   \<and> items (last_day_stats_iterator env db 0 from_arg) = []
   \<and> on_start (last_day_stats_iterator env db 0 from_arg) = []
   \<and> ret (collect env db 0 0 from_arg True False) = Inr (Verdict True)
   \<and> queries (collect env db 0 0 from_arg True False)
       = [CountSiriSnapshots, SelectLatestSiriSnapshots 0]"
  by (simp add: siri_snapshots_iterator_def latest_siri_snapshots_def slice_to_def
      last_day_stats_iterator_def collect_def Let_def)

theorem zero_limit_yields_nothing_witness:
  "items (siri_snapshots_iterator example_store 0) = []
   \<and> items (last_day_stats_iterator example_env example_store 0 None) = []
   \<and> ret (collect example_env example_store 0 0 None True False) = Inr (Verdict True)"
  using zero_limit_yields_nothing [of example_store example_env None] by simp

text \<open>
  Claim C2, as amended. The window of a day is closed at both ends: a snapshot added to the
  store raises the by-timestamp count of the day by one exactly when its start time lies
  between the local midnight of the day and that midnight plus 24 hours, both included;
  and so does a ride with a flag that is not NULL, for the sum of the two ride counts.
\<close>

theorem window_is_closed:
  "siri_snapshot_by_etl_started (day_stats_of env (add_rows db [s] []) d)
     = siri_snapshot_by_etl_started (day_stats_of env db d)
       + (if israel_midnight env d \<le> etl_start_time s
             \<and> etl_start_time s \<le> israel_midnight env d + timedelta_days 1 then 1 else 0)
   \<and> (Ride_is_from_gtfs r \<noteq> None \<longrightarrow>
        ride_is_from_gtfs (day_stats_of env (add_rows db [] [r]) d)
          + ride_not_from_gtfs (day_stats_of env (add_rows db [] [r]) d)
        = ride_is_from_gtfs (day_stats_of env db d) + ride_not_from_gtfs (day_stats_of env db d)
          + (if israel_midnight env d \<le> scheduled_start_time r
                \<and> scheduled_start_time r \<le> israel_midnight env d + timedelta_days 1 then 1 else 0))"
proof (intro conjI impI)
  show "siri_snapshot_by_etl_started (day_stats_of env (add_rows db [s] []) d)
     = siri_snapshot_by_etl_started (day_stats_of env db d)
       + (if israel_midnight env d \<le> etl_start_time s
             \<and> etl_start_time s \<le> israel_midnight env d + timedelta_days 1 then 1 else 0)"
    by (simp add: by_etl_started_field add_rows_fields in_window_def)
next
  assume "Ride_is_from_gtfs r \<noteq> None"
  then obtain b where b: "Ride_is_from_gtfs r = Some b" by auto
  show "ride_is_from_gtfs (day_stats_of env (add_rows db [] [r]) d)
          + ride_not_from_gtfs (day_stats_of env (add_rows db [] [r]) d)
        = ride_is_from_gtfs (day_stats_of env db d) + ride_not_from_gtfs (day_stats_of env db d)
          + (if israel_midnight env d \<le> scheduled_start_time r
                \<and> scheduled_start_time r \<le> israel_midnight env d + timedelta_days 1 then 1 else 0)"
    by (cases b) (simp_all add: ride_fields add_rows_fields in_window_def b)
qed

theorem window_is_closed_witness:
  "siri_snapshot_by_etl_started
     (day_stats_of example_env (add_rows empty_store [boundary_snapshot] []) 738888) = 1
   \<and> ride_is_from_gtfs (day_stats_of example_env (add_rows empty_store [] [midnight_ride]) 738888)
     + ride_not_from_gtfs (day_stats_of example_env (add_rows empty_store [] [midnight_ride]) 738888)
     = 1"
proof -
  have h: "Ride_is_from_gtfs midnight_ride \<noteq> None"
    by (simp add: midnight_ride_def)
  have z: "siri_snapshot_by_etl_started (day_stats_of example_env empty_store 738888) = 0"
    "ride_is_from_gtfs (day_stats_of example_env empty_store 738888) = 0"
    "ride_not_from_gtfs (day_stats_of example_env empty_store 738888) = 0"
    by (simp_all add: by_etl_started_field ride_fields empty_store_fields)
  have s: "etl_start_time boundary_snapshot = israel_midnight example_env 738888 + timedelta_days 1"
    by (simp add: boundary_snapshot_def mk_snapshot_def example_midnight)
  have r: "scheduled_start_time midnight_ride = israel_midnight example_env 738888"
    by (simp add: midnight_ride_def example_midnight)
  from window_is_closed [of example_env empty_store boundary_snapshot 738888 midnight_ride] h
  show ?thesis
    by (simp add: z s r timedelta_days_def)
qed

text \<open>
  The claim as stated fails: a snapshot that started exactly at the end of the window
  is counted in the day.
\<close>

theorem window_end_counted_counterexample:
  "etl_start_time boundary_snapshot = israel_midnight example_env 738888 + timedelta_days 1
   \<and> siri_snapshots boundary_store = [boundary_snapshot]
   \<and> siri_snapshot_by_etl_started (day_stats_of example_env boundary_store 738888) = 1"
  by (simp add: by_etl_started_field boundary_store_def boundary_snapshot_def mk_snapshot_def
      empty_store_def example_midnight in_window_def timedelta_days_def)

text \<open>
  Claim C3. The code at a store with one ride, scheduled in the window of the day and with a
  NULL flag: the ride is in neither count, since both \<^verbatim>\<open>is_from_gtfs = true\<close> and
  \<^verbatim>\<open>is_from_gtfs != true\<close> are NULL for it, so the two counts add up to 0 and not to 1.
\<close>

theorem null_flag_ride_in_neither_count:
  "rides_in_window example_env null_flag_store 738888 = 1
   \<and> ride_is_from_gtfs (day_stats_of example_env null_flag_store 738888) = 0
   \<and> ride_not_from_gtfs (day_stats_of example_env null_flag_store 738888) = 0"
  by (simp add: ride_fields rides_in_window_def null_flag_store_def empty_store_def
      example_midnight in_window_def time_defs)

text \<open>
  Claim C4, as amended. Snapshots and rides added to the store leave every count of the
  record of day \<open>d2\<close> unchanged when their timestamps lie outside the (closed) window of
  \<open>d2\<close> and the identifiers of the added snapshots do not begin with the date of \<open>d2\<close>.
\<close>

theorem window_isolation:
  assumes "\<forall>s \<in> set ss.
             \<not> in_window (israel_midnight env d2) (israel_midnight env d2 + timedelta_days 1) (etl_start_time s)
             \<and> \<not> prefix (strftime_ymd d2) (snapshot_id s)"
    and "\<forall>r \<in> set rs.
             \<not> in_window (israel_midnight env d2) (israel_midnight env d2 + timedelta_days 1) (scheduled_start_time r)"
  shows "day_stats_of env (add_rows db ss rs) d2 = day_stats_of env db d2"
proof -
  have a: "\<forall>s \<in> set ss. \<not> in_window (israel_midnight env d2) (israel_midnight env d2 + timedelta_days 1) (etl_start_time s)"
    using assms(1) by simp
  have b: "\<forall>s \<in> set ss. \<not> sql_like (strftime_ymd d2 @ ''%'') (snapshot_id s)"
    using assms(1) by (simp add: like_day_pattern)
  show ?thesis
    unfolding day_stats_of_def Let_def
    by (simp only: count_etl_started_add [OF a] count_snapshot_id_add [OF b]
        count_vehicle_locations_add [OF b] count_rides_add [OF assms(2)]
        count_routes_add [OF assms(2)] count_route_stops_add [OF assms(2)]
        count_stops_add [OF assms(2)])
qed

theorem window_isolation_witness:
  "day_stats_of example_env (add_rows example_store [snapshot_0800] [early_ride]) 738888
     = day_stats_of example_env example_store 738888"
proof -
  have a: "\<forall>s \<in> set [snapshot_0800].
             \<not> in_window (israel_midnight example_env 738888)
                 (israel_midnight example_env 738888 + timedelta_days 1) (etl_start_time s)
             \<and> \<not> prefix (strftime_ymd 738888) (snapshot_id s)"
    by (simp add: snapshot_0800_def mk_snapshot_def example_midnight in_window_def time_defs
        strftime_738888)
  have b: "\<forall>r \<in> set [early_ride].
             \<not> in_window (israel_midnight example_env 738888)
                 (israel_midnight example_env 738888 + timedelta_days 1) (scheduled_start_time r)"
    by (simp add: early_ride_def example_midnight in_window_def time_defs)
  from window_isolation [OF a b] show ?thesis .
qed

text \<open>
  The claim as stated fails: a snapshot whose start time lies in the window of the earlier
  day only, and whose identifier carries the date of the later day, changes the
  by-identifier count of the later day.
\<close>

theorem identifier_crosses_window_counterexample:
  "in_window (israel_midnight example_env 738887)
     (israel_midnight example_env 738887 + timedelta_days 1) (etl_start_time divergent_snapshot)
   \<and> \<not> in_window (israel_midnight example_env 738888)
       (israel_midnight example_env 738888 + timedelta_days 1) (etl_start_time divergent_snapshot)
   \<and> siri_snapshot_by_snapshot_id (day_stats_of example_env empty_store 738888) = 0
   \<and> siri_snapshot_by_snapshot_id
       (day_stats_of example_env (add_rows empty_store [divergent_snapshot] []) 738888) = 1"
  by (simp add: by_snapshot_id_field add_rows_fields empty_store_fields divergent_snapshot_def
      mk_snapshot_def example_midnight in_window_def time_defs strftime_738888)

text \<open>
  Claim C7. The by-identifier count of a day is the number of snapshots whose identifier
  begins with the date of the day written as four digits, two digits and two digits, each
  followed by a slash. A snapshot whose start time lies in the window of the day and whose
  identifier does not begin so is counted by timestamp and not by identifier.
  The date written is that of the day: the year, month and day that the prefix is made of
  are a date of the calendar (a month from 1 to 12, a day from 1 to the length of that month
  in that year) whose ordinal is the day, and they are the only such date; the three
  segments consist of decimal digits, and for a year from 1 to 9999 they read back as the
  year, the month and the day.
\<close>

theorem by_snapshot_id_is_prefix_count:
  "siri_snapshot_by_snapshot_id (day_stats_of env db d)
     = length (filter (\<lambda>s. prefix (strftime_ymd d) (snapshot_id s)) (siri_snapshots db))
   \<and> length (strftime_ymd d) = 11
   \<and> strftime_ymd d ! 4 = CHR ''/'' \<and> strftime_ymd d ! 7 = CHR ''/'' \<and> strftime_ymd d ! 10 = CHR ''/''
   \<and> (\<not> prefix (strftime_ymd d) (snapshot_id s)
        \<and> in_window (israel_midnight env d) (israel_midnight env d + timedelta_days 1) (etl_start_time s)
      \<longrightarrow> siri_snapshot_by_snapshot_id (day_stats_of env (add_rows db [s] []) d)
            = siri_snapshot_by_snapshot_id (day_stats_of env db d)
          \<and> siri_snapshot_by_etl_started (day_stats_of env (add_rows db [s] []) d)
            = siri_snapshot_by_etl_started (day_stats_of env db d) + 1)
   \<and> (case ord2ymd d of (y0, m0, dd0) \<Rightarrow>
         1 \<le> m0 \<and> m0 \<le> 12 \<and> 1 \<le> dd0 \<and> dd0 \<le> days_in_month y0 m0 \<and> ymd2ord y0 m0 dd0 = d)
   \<and> (1 \<le> m \<and> m \<le> 12 \<and> 1 \<le> dd \<and> dd \<le> days_in_month y m \<and> ymd2ord y m dd = d
      \<longrightarrow> ord2ymd d = (y, m, dd)
          \<and> strftime_ymd d = fmt4 (nat y) @ ''/'' @ fmt2 (nat m) @ ''/'' @ fmt2 (nat dd) @ ''/''
          \<and> siri_snapshot_by_snapshot_id (day_stats_of env db d)
              = length (filter (\<lambda>s. prefix (fmt4 (nat y) @ ''/'' @ fmt2 (nat m) @ ''/''
                                              @ fmt2 (nat dd) @ ''/'') (snapshot_id s))
                          (siri_snapshots db))
          \<and> set (fmt4 (nat y) @ fmt2 (nat m) @ fmt2 (nat dd)) \<subseteq> set ''0123456789''
          \<and> (1 \<le> y \<and> y \<le> 9999
             \<longrightarrow> int (decimal_value (take 4 (strftime_ymd d))) = y
                 \<and> int (decimal_value (take 2 (drop 5 (strftime_ymd d)))) = m
                 \<and> int (decimal_value (take 2 (drop 8 (strftime_ymd d)))) = dd))"
proof -
  have old: "siri_snapshot_by_snapshot_id (day_stats_of env db d)
     = length (filter (\<lambda>s. prefix (strftime_ymd d) (snapshot_id s)) (siri_snapshots db))
   \<and> length (strftime_ymd d) = 11
   \<and> strftime_ymd d ! 4 = CHR ''/'' \<and> strftime_ymd d ! 7 = CHR ''/'' \<and> strftime_ymd d ! 10 = CHR ''/''
   \<and> (\<not> prefix (strftime_ymd d) (snapshot_id s)
        \<and> in_window (israel_midnight env d) (israel_midnight env d + timedelta_days 1) (etl_start_time s)
      \<longrightarrow> siri_snapshot_by_snapshot_id (day_stats_of env (add_rows db [s] []) d)
            = siri_snapshot_by_snapshot_id (day_stats_of env db d)
          \<and> siri_snapshot_by_etl_started (day_stats_of env (add_rows db [s] []) d)
            = siri_snapshot_by_etl_started (day_stats_of env db d) + 1)"
    by (simp add: by_snapshot_id_field by_etl_started_field add_rows_fields strftime_shape)
  have date: "case ord2ymd d of (y0, m0, dd0) \<Rightarrow>
         1 \<le> m0 \<and> m0 \<le> 12 \<and> 1 \<le> dd0 \<and> dd0 \<le> days_in_month y0 m0 \<and> ymd2ord y0 m0 dd0 = d"
    by (rule ymd2ord_ord2ymd)
  have new: "ord2ymd d = (y, m, dd)
          \<and> strftime_ymd d = fmt4 (nat y) @ ''/'' @ fmt2 (nat m) @ ''/'' @ fmt2 (nat dd) @ ''/''
          \<and> siri_snapshot_by_snapshot_id (day_stats_of env db d)
              = length (filter (\<lambda>s. prefix (fmt4 (nat y) @ ''/'' @ fmt2 (nat m) @ ''/''
                                              @ fmt2 (nat dd) @ ''/'') (snapshot_id s))
                          (siri_snapshots db))
          \<and> set (fmt4 (nat y) @ fmt2 (nat m) @ fmt2 (nat dd)) \<subseteq> set ''0123456789''
          \<and> (1 \<le> y \<and> y \<le> 9999
             \<longrightarrow> int (decimal_value (take 4 (strftime_ymd d))) = y
                 \<and> int (decimal_value (take 2 (drop 5 (strftime_ymd d)))) = m
                 \<and> int (decimal_value (take 2 (drop 8 (strftime_ymd d)))) = dd)"
    if v: "1 \<le> m" "m \<le> 12" "1 \<le> dd" "dd \<le> days_in_month y m" "ymd2ord y m dd = d"
  proof -
    note sd = strftime_of_date [OF v]
    have dd31: "dd \<le> 31" using v(1,2,4) by (rule days_in_month_le_31_valid)
    have cnt: "siri_snapshot_by_snapshot_id (day_stats_of env db d)
              = length (filter (\<lambda>s. prefix (fmt4 (nat y) @ ''/'' @ fmt2 (nat m) @ ''/''
                                              @ fmt2 (nat dd) @ ''/'') (snapshot_id s))
                          (siri_snapshots db))"
      by (simp only: by_snapshot_id_field sd(2))
    have digs: "set (fmt4 (nat y) @ fmt2 (nat m) @ fmt2 (nat dd)) \<subseteq> set ''0123456789''"
      using fmt_digits [of "nat y"] fmt_digits [of "nat m"] fmt_digits [of "nat dd"]
      by (simp only: set_append Un_subset_iff)
    have rb: "int (decimal_value (take 4 (strftime_ymd d))) = y
                 \<and> int (decimal_value (take 2 (drop 5 (strftime_ymd d)))) = m
                 \<and> int (decimal_value (take 2 (drop 8 (strftime_ymd d)))) = dd"
      if "1 \<le> y" "y \<le> 9999"
      unfolding sd(2) strftime_segments
      using strftime_reads_back [OF that v(1,2,3) dd31] by blast
    from sd cnt digs rb show ?thesis by blast
  qed
  from old date new show ?thesis by blast
qed

theorem by_snapshot_id_is_prefix_count_witness:
  "strftime_ymd 738887 = ''2024/01/02/''
   \<and> siri_snapshot_by_snapshot_id
       (day_stats_of example_env (add_rows empty_store [divergent_snapshot] []) 738887) = 0
   \<and> siri_snapshot_by_etl_started
       (day_stats_of example_env (add_rows empty_store [divergent_snapshot] []) 738887) = 1
   \<and> ymd2ord 2024 1 2 = 738887
   \<and> ord2ymd 738887 = (2024, 1, 2)
   \<and> int (decimal_value (take 4 (strftime_ymd 738887))) = 2024
   \<and> int (decimal_value (take 2 (drop 5 (strftime_ymd 738887)))) = 1
   \<and> int (decimal_value (take 2 (drop 8 (strftime_ymd 738887)))) = 2"
proof -
  have h: "\<not> prefix (strftime_ymd 738887) (snapshot_id divergent_snapshot)
        \<and> in_window (israel_midnight example_env 738887)
            (israel_midnight example_env 738887 + timedelta_days 1)
            (etl_start_time divergent_snapshot)"
    by (simp add: divergent_snapshot_def mk_snapshot_def example_midnight in_window_def time_defs
        strftime_738887)
  have z: "siri_snapshot_by_snapshot_id (day_stats_of example_env empty_store 738887) = 0"
    "siri_snapshot_by_etl_started (day_stats_of example_env empty_store 738887) = 0"
    by (simp_all add: by_snapshot_id_field by_etl_started_field empty_store_fields)
  have o: "ymd2ord 2024 1 2 = 738887"
    by (simp add: ymd2ord_def days_before_year_def days_before_month_def Let_def
        DAYS_BEFORE_MONTH_def)
  have v: "(1::int) \<le> 1 \<and> (1::int) \<le> 12 \<and> (1::int) \<le> 2 \<and> 2 \<le> days_in_month 2024 1
        \<and> ymd2ord 2024 1 2 = 738887"
    using o by (simp add: days_in_month_def DAYS_IN_MONTH_def)
  have r: "(1::int) \<le> 2024 \<and> (2024::int) \<le> 9999" by simp
  from by_snapshot_id_is_prefix_count
    [where env = example_env and db = empty_store and d = 738887 and s = divergent_snapshot
       and y = 2024 and m = 1 and dd = 2] h v r
  show ?thesis
    by (simp add: z strftime_738887)
qed

end
